theory Spec2Isabelle
  imports Complex_Main "HOL-Library.Multiset"
begin

section \<open>The campaign alert script (second source file)\<close>

text \<open>
  The second source file is one function \<open>main\<close>, written to walk over the campaigns
  of the account, to collect the names of the enabled campaigns that had no impression
  yesterday and to send one mail when there is such a campaign. The file as it is
  committed writes its string literals between typographic quotation marks (U+201C,
  U+201D, U+2018, U+2019), which are no string delimiters of the language. What the
  script does is therefore first a question of whether the file is a program: the file
  is embedded as the text it is, line by line, every line a list of code points.
\<close>

type_synonym codepoint = nat

definition ascii :: "string \<Rightarrow> codepoint list" where
  "ascii s = map of_char s"

definition part_000 :: "codepoint list list" where
  "part_000 =
     [ascii ''function main() {'',
      [],
      ascii ''// Enter your account name and email here:'',
      [],
      ascii ''var accountName = '' @ [0x201C] @ ascii ''nome da conta'' @ [0x22]
        @ ascii '';'',
      [],
      ascii ''var yourEmail = '' @ [0x201C] @ ascii ''seu email'' @ [0x201D] @ ascii '';'',
      [],
      ascii ''var emailBody='' @ [0x201D] @ ascii ''Ontem estas campanhas n'' @ [0xE3]
        @ ascii ''o tiveram impress'' @ [0xF5] @ ascii ''es:<br>'' @ [0x201D]
        @ ascii '';'',
      [],
      ascii ''var noImpCamp=0;'',
      [],
      ascii ''var campaignsIterator = AdWordsApp.campaigns().get();'',
      [],
      ascii ''while (campaignsIterator.hasNext()) {'',
      [],
      ascii ''var campaign = campaignsIterator.next();'',
      [],
      ascii ''var stats = campaign.getStatsFor('' @ [0x2018] @ ascii ''YESTERDAY''
        @ [0x2019] @ ascii '');'',
      [],
      ascii ''if ((stats.getImpressions() == 0)&&(campaign.isEnabled())) {'',
      [],
      ascii ''emailBody = emailBody + campaign.getName() + '' @ [0x201C] @ ascii ''<br>''
        @ [0x201D] @ ascii '';'',
      [],
      ascii ''noImpCamp++;'',
      [],
      ascii ''}'',
      [],
      ascii ''}'',
      [],
      ascii ''if (noImpCamp > 0) {'',
      [],
      ascii ''MailApp.sendEmail(yourEmail,'' @ [0x201D] @ ascii ''Alerta: '' @ [0x201D]
        @ ascii '' + accountName + '' @ [0x201D] @ ascii '' '' @ [0x2013] @ ascii '' ''
        @ [0x201D] @ ascii '' + noImpCamp + '' @ [0x201D]
        @ ascii '' Campanhas sem impress'' @ [0xF5] @ ascii ''es'' @ [0x201D]
        @ ascii '','' @ [0x201D, 0x201D] @ ascii '',{htmlBody: emailBody})'',
      [],
      ascii ''}'',
      [],
      ascii ''}'']"

text \<open>
  The lexical structure of a script, as far as it decides where a code point may stand.
  In code, two slashes open a comment that ends with the line, a slash and a star a
  comment that ends with a star and a slash, and an ASCII quotation mark or apostrophe
  a string literal that ends with the same code point on the same line; in a literal a
  backslash escapes the code point after it, and continues the literal on the next line
  when it ends the line. In a comment and in a string literal every code point may
  stand. In code, a code point of the range U+2010 to U+2027 (the dashes, typographic
  quotation marks and bullets) is a syntax error: it is no white space, no line
  terminator, no part of an identifier or a number, and no punctuator. Regular
  expression literals and template literals are not part of the model.
\<close>

datatype mode = Code | LineComment | BlockComment | StringLiteral codepoint

definition stray :: "codepoint \<Rightarrow> bool" where
  "stray c = (0x2010 \<le> c \<and> c \<le> 0x2027)"

text \<open>A line is scanned in the mode that the line before has left: the result is the
  mode for the next line, or nothing when the line has a syntax error.\<close>

fun scanLine :: "mode \<Rightarrow> codepoint list \<Rightarrow> mode option" where
  "scanLine Code [] = Some Code"
| "scanLine LineComment cs = Some Code"
| "scanLine BlockComment [] = Some BlockComment"
| "scanLine (StringLiteral q) [] = None"
| "scanLine Code (c # cs) =
     (if c = 0x2F \<and> cs \<noteq> [] \<and> hd cs = 0x2F then scanLine LineComment (tl cs)
      else if c = 0x2F \<and> cs \<noteq> [] \<and> hd cs = 0x2A then scanLine BlockComment (tl cs)
      else if c = 0x22 \<or> c = 0x27 then scanLine (StringLiteral c) cs
      else if stray c then None
      else scanLine Code cs)"
| "scanLine BlockComment (c # cs) =
     (if c = 0x2A \<and> cs \<noteq> [] \<and> hd cs = 0x2F then scanLine Code (tl cs)
      else scanLine BlockComment cs)"
| "scanLine (StringLiteral q) (c # cs) =
     (if c = q then scanLine Code cs
      else if c = 0x5C then
        (if cs = [] then Some (StringLiteral q) else scanLine (StringLiteral q) (tl cs))
      else scanLine (StringLiteral q) cs)"

text \<open>The scan of a file, from a line number on: the file passes, or it has a syntax
  error in a line.\<close>

datatype scan = Scanned | SyntaxError nat

fun scanLines :: "mode \<Rightarrow> nat \<Rightarrow> codepoint list list \<Rightarrow> scan" where
  "scanLines m n [] = (if m = Code then Scanned else SyntaxError n)"
| "scanLines m n (l # ls) =
     (case scanLine m l of None \<Rightarrow> SyntaxError n | Some m' \<Rightarrow> scanLines m' (n + 1) ls)"

definition scanScript :: "codepoint list list \<Rightarrow> scan" where
  "scanScript src = scanLines Code 1 src"

text \<open>
  The campaigns that the iterator of the account yields, with the impressions of
  yesterday, and a mail of the mail service.
\<close>

record campaign =
  getName :: string
  getImpressions :: nat
  isEnabled :: bool

record email =
  recipient :: string
  subject :: string
  body :: string
  htmlBody :: string

text \<open>
  A run of a script file over the campaigns of an account; the result is the list of
  the mails sent. The script is compiled before its \<open>main\<close> is called: a file with a
  syntax error defines no \<open>main\<close>, nothing of it is executed and no mail is sent. What
  the \<open>main\<close> of a file without syntax error does is a parameter.
\<close>

definition runScript ::
  "codepoint list list \<Rightarrow> (campaign list \<Rightarrow> email list) \<Rightarrow> campaign list \<Rightarrow> email list" where
  "runScript src program campaigns =
     (case scanScript src of SyntaxError n \<Rightarrow> [] | Scanned \<Rightarrow> program campaigns)"

section \<open>JavaScript values of the Kratu script\<close>

text \<open>
  A JavaScript number is a real number, an infinity or NaN. Finite numbers are exact
  reals: rounding and overflow of doubles are not part of the model, and the two zeros
  are one. Comparisons with NaN are false and arithmetic on NaN gives NaN, as in the
  language.
\<close>

datatype jsnum = Num real | PosInfinity | NegInfinity | NaN

fun js_le :: "jsnum \<Rightarrow> jsnum \<Rightarrow> bool" where
  "js_le NaN y = False"
| "js_le x NaN = False"
| "js_le NegInfinity y = True"
| "js_le x PosInfinity = True"
| "js_le (Num a) (Num b) = (a \<le> b)"
| "js_le x y = False"

definition js_ge :: "jsnum \<Rightarrow> jsnum \<Rightarrow> bool" where
  "js_ge x y = js_le y x"

fun js_lt :: "jsnum \<Rightarrow> jsnum \<Rightarrow> bool" where
  "js_lt NaN y = False"
| "js_lt x NaN = False"
| "js_lt (Num a) (Num b) = (a < b)"
| "js_lt NegInfinity NegInfinity = False"
| "js_lt NegInfinity y = True"
| "js_lt PosInfinity y = False"
| "js_lt (Num a) PosInfinity = True"
| "js_lt (Num a) NegInfinity = False"

fun js_neg :: "jsnum \<Rightarrow> jsnum" where
  "js_neg (Num a) = Num (- a)"
| "js_neg PosInfinity = NegInfinity"
| "js_neg NegInfinity = PosInfinity"
| "js_neg NaN = NaN"

fun js_add :: "jsnum \<Rightarrow> jsnum \<Rightarrow> jsnum" where
  "js_add NaN y = NaN"
| "js_add x NaN = NaN"
| "js_add (Num a) (Num b) = Num (a + b)"
| "js_add PosInfinity NegInfinity = NaN"
| "js_add NegInfinity PosInfinity = NaN"
| "js_add PosInfinity y = PosInfinity"
| "js_add NegInfinity y = NegInfinity"
| "js_add (Num a) y = y"

definition js_sub :: "jsnum \<Rightarrow> jsnum \<Rightarrow> jsnum" where
  "js_sub x y = js_add x (js_neg y)"

text \<open>The sign of a number that is not NaN: \<open>-1\<close>, \<open>0\<close> or \<open>1\<close>.\<close>

fun js_sign :: "jsnum \<Rightarrow> real" where
  "js_sign (Num a) = sgn a"
| "js_sign PosInfinity = 1"
| "js_sign NegInfinity = - 1"
| "js_sign NaN = 0"

definition signed_infinity :: "real \<Rightarrow> jsnum" where
  "signed_infinity r = (if r = 0 then NaN else if 0 < r then PosInfinity else NegInfinity)"

fun js_mul :: "jsnum \<Rightarrow> jsnum \<Rightarrow> jsnum" where
  "js_mul NaN y = NaN"
| "js_mul x NaN = NaN"
| "js_mul (Num a) (Num b) = Num (a * b)"
| "js_mul x y = signed_infinity (js_sign x * js_sign y)"

text \<open>
  Division: a finite non-zero number divided by zero is an infinity, zero divided by
  zero is NaN; nothing is raised.
\<close>

fun js_div :: "jsnum \<Rightarrow> jsnum \<Rightarrow> jsnum" where
  "js_div NaN y = NaN"
| "js_div x NaN = NaN"
| "js_div (Num a) (Num b) = (if b = 0 then signed_infinity a else Num (a / b))"
| "js_div (Num a) y = Num 0"
| "js_div x (Num b) = signed_infinity (js_sign x * (if b < 0 then - 1 else 1))"
| "js_div x y = NaN"

subsection \<open>Strings as numbers\<close>

text \<open>
  \<open>parseFloat\<close> reads the longest prefix of the string, after leading white space, that
  is a decimal literal (sign, digits, fraction, exponent, or \<open>Infinity\<close>); the
  conversion of a whole string to a number (as \<open>-\<close>, \<open>*\<close> and the comparisons with a
  number do it) trims the string, takes the empty string to 0 and wants all of the rest
  to be a literal. White space is the white space of ASCII. Hexadecimal, octal and
  binary literals are not modelled (the conversion gives NaN for them): the report never
  writes them.
\<close>

definition is_space :: "char \<Rightarrow> bool" where
  "is_space c = (c \<in> set [CHR '' '', CHR 0x09, CHR 0x0A, CHR 0x0B, CHR 0x0C, CHR 0x0D])"

definition is_digit :: "char \<Rightarrow> bool" where
  "is_digit c = (c \<in> set ''0123456789'')"

text \<open>The value of a digit: its place in the string of the ten digits.\<close>

definition digit_val :: "char \<Rightarrow> nat" where
  "digit_val c = length (takeWhile (\<lambda>d. d \<noteq> c) ''0123456789'')"

definition nat_of_digits :: "string \<Rightarrow> nat" where
  "nat_of_digits ds = foldl (\<lambda>n c. 10 * n + digit_val c) 0 ds"

text \<open>An optional sign: the factor and the rest of the string.\<close>

fun read_sign :: "string \<Rightarrow> real \<times> string" where
  "read_sign [] = (1, [])"
| "read_sign (c # cs) =
     (if c = CHR ''-'' then (- 1, cs) else if c = CHR ''+'' then (1, cs) else (1, c # cs))"

text \<open>
  An optional exponent part after the mantissa: the power of ten and the rest. An
  \<open>e\<close> that no digit follows is not part of the literal.
\<close>

definition read_exponent :: "string \<Rightarrow> real \<times> string" where
  "read_exponent s =
     (case s of
        [] \<Rightarrow> (1, s)
      | c # cs \<Rightarrow>
          if c = CHR ''e'' \<or> c = CHR ''E'' then
            (case read_sign cs of
               (sg, t) \<Rightarrow>
                 if takeWhile is_digit t = [] then (1, s)
                 else ((if sg < 0 then 1 / 10 ^ nat_of_digits (takeWhile is_digit t)
                        else 10 ^ nat_of_digits (takeWhile is_digit t)),
                       dropWhile is_digit t))
          else (1, s))"

text \<open>The unsigned decimal literal at the start of a string, if there is one.\<close>

definition read_unsigned :: "string \<Rightarrow> (jsnum \<times> string) option" where
  "read_unsigned s =
     (if take 8 s = ''Infinity'' then Some (PosInfinity, drop 8 s)
      else
        let ip = takeWhile is_digit s;
            r1 = dropWhile is_digit s;
            dot = (r1 \<noteq> [] \<and> hd r1 = CHR ''.'');
            fp = (if dot then takeWhile is_digit (tl r1) else []);
            r2 = (if dot then dropWhile is_digit (tl r1) else r1)
        in if ip = [] \<and> fp = [] then None
           else
             (case read_exponent r2 of
                (p, r3) \<Rightarrow>
                  Some (Num ((real (nat_of_digits ip)
                              + real (nat_of_digits fp) / 10 ^ length fp) * p), r3)))"

definition read_decimal :: "string \<Rightarrow> (jsnum \<times> string) option" where
  "read_decimal s =
     (case read_sign s of
        (sg, t) \<Rightarrow>
          (case read_unsigned t of
             None \<Rightarrow> None
           | Some (v, r) \<Rightarrow> Some (if sg < 0 then js_neg v else v, r)))"

definition parseFloat :: "string \<Rightarrow> jsnum" where
  "parseFloat s =
     (case read_decimal (dropWhile is_space s) of None \<Rightarrow> NaN | Some (v, r) \<Rightarrow> v)"

definition trim :: "string \<Rightarrow> string" where
  "trim s = rev (dropWhile is_space (rev (dropWhile is_space s)))"

definition string_to_number :: "string \<Rightarrow> jsnum" where
  "string_to_number s =
     (if trim s = [] then Num 0
      else (case read_decimal (trim s) of
              Some (v, []) \<Rightarrow> v
            | _ \<Rightarrow> NaN))"

subsection \<open>Values\<close>

datatype jsval = JNumber jsnum | JString string | JBoolean bool | JUndefined | JNull

fun to_number :: "jsval \<Rightarrow> jsnum" where
  "to_number (JNumber n) = n"
| "to_number (JString s) = string_to_number s"
| "to_number (JBoolean b) = (if b then Num 1 else Num 0)"
| "to_number JUndefined = NaN"
| "to_number JNull = Num 0"

text \<open>The truth value of a value in a condition.\<close>

fun truthy :: "jsval \<Rightarrow> bool" where
  "truthy (JNumber n) = (n \<noteq> NaN \<and> n \<noteq> Num 0)"
| "truthy (JString s) = (s \<noteq> [])"
| "truthy (JBoolean b) = b"
| "truthy JUndefined = False"
| "truthy JNull = False"

text \<open>Equality of numbers: NaN equals nothing.\<close>

definition num_eq :: "jsnum \<Rightarrow> jsnum \<Rightarrow> bool" where
  "num_eq x y = (x \<noteq> NaN \<and> x = y)"

text \<open>The operator \<open>==\<close>, with its conversions.\<close>

fun loose_eq :: "jsval \<Rightarrow> jsval \<Rightarrow> bool" where
  "loose_eq (JNumber a) (JNumber b) = num_eq a b"
| "loose_eq (JString a) (JString b) = (a = b)"
| "loose_eq (JBoolean a) (JBoolean b) = (a = b)"
| "loose_eq JUndefined y = (y = JUndefined \<or> y = JNull)"
| "loose_eq JNull y = (y = JUndefined \<or> y = JNull)"
| "loose_eq x JUndefined = False"
| "loose_eq x JNull = False"
| "loose_eq (JNumber a) (JString b) = num_eq a (string_to_number b)"
| "loose_eq (JString a) (JNumber b) = num_eq (string_to_number a) b"
| "loose_eq (JBoolean a) y = num_eq (to_number (JBoolean a)) (to_number y)"
| "loose_eq x (JBoolean b) = num_eq (to_number x) (to_number (JBoolean b))"

section \<open>The Kratu script: settings and signal catalog\<close>

text \<open>
  What the script throws: the string of \<open>getSetting\<close> for a mandatory setting that is
  not set, the type error of a method call on \<open>undefined\<close>, and the exceptions of the
  spreadsheet service (a range of no rows, a URL that opens no spreadsheet).
\<close>

datatype error = Thrown string | TypeError | RangeException | OpenException

text \<open>
  What \<open>getValue\<close> reads from a cell of a sheet: a number, a string (the empty string
  when the cell is empty) or a boolean.
\<close>

datatype cell = CNumber real | CString string | CBoolean bool

fun js_of_cell :: "cell \<Rightarrow> jsval" where
  "js_of_cell (CNumber x) = JNumber (Num x)"
| "js_of_cell (CString t) = JString t"
| "js_of_cell (CBoolean b) = JBoolean b"

text \<open>
  A row of the Settings tab: key, type and value of the setting, and the background
  colour of the value cell.
\<close>

record settingRow =
  keyCell :: string
  typeCell :: string
  valueCell :: cell
  background :: string

record setting =
  key :: string
  type_s :: string
  value_s :: jsval

text \<open>
  \<open>readSettings\<close>: the loop over the rows of the range. A row whose key or value is
  falsy is skipped; the value of a setting of type \<open>Color\<close> is the background of the
  cell.
\<close>

fun readSettingsLoop :: "settingRow list \<Rightarrow> setting list \<Rightarrow> setting list" where
  "readSettingsLoop [] settings = settings"
| "readSettingsLoop (r # rs) settings =
     (let v = (if typeCell r = ''Color'' then JString (background r)
               else js_of_cell (valueCell r))
      in if \<not> truthy (JString (keyCell r)) \<or> \<not> truthy v
         then readSettingsLoop rs settings
         else readSettingsLoop rs
                (settings @ [\<lparr>key = keyCell r, type_s = typeCell r, value_s = v\<rparr>]))"

definition readSettings :: "settingRow list \<Rightarrow> setting list" where
  "readSettings settingsTab = readSettingsLoop settingsTab []"

text \<open>
  \<open>getSetting\<close>: the value of the first setting with the key and a truthy value;
  without one, the thrown message when the setting is mandatory and \<open>null\<close> otherwise.
\<close>

fun getSetting :: "setting list \<Rightarrow> string \<Rightarrow> bool \<Rightarrow> error + jsval" where
  "getSetting [] k mandatory =
     (if mandatory then Inl (Thrown (''Setting '' @ [CHR 0x27] @ k @ [CHR 0x27] @ '' is not set!''))
      else Inr JNull)"
| "getSetting (s # ss) k mandatory =
     (if key s = k \<and> truthy (value_s s) then Inr (value_s s) else getSetting ss k mandatory)"

text \<open>
  A row of the Signals tab and the signal definition read from it. The text columns are
  strings, the columns weight, min and max hold numbers.
\<close>

record signalDefinition =
  name :: string
  displayName :: string
  includeInReport :: string
  type_d :: string
  direction :: string
  format :: string
  weight :: real
  min_d :: real
  max_d :: real

text \<open>\<open>calculateSumWeights\<close>: the loop, with the variable \<open>sumWeights\<close>.\<close>

fun sumWeightsLoop :: "signalDefinition list \<Rightarrow> real \<Rightarrow> real" where
  "sumWeightsLoop [] sumWeights = sumWeights"
| "sumWeightsLoop (d # ds) sumWeights =
     (if type_d d = ''Number'' \<and> includeInReport d = ''Yes''
      then sumWeightsLoop ds (sumWeights + weight d)
      else sumWeightsLoop ds sumWeights)"

definition calculateSumWeights :: "signalDefinition list \<Rightarrow> real" where
  "calculateSumWeights signalDefinitions = sumWeightsLoop signalDefinitions 0"

text \<open>
  \<open>readSignalDefinitions\<close>: the rows with a name, in the order of the tab, and the sum
  of weights computed from them. It has no other exit.
\<close>

fun signalRowsLoop :: "signalDefinition list \<Rightarrow> signalDefinition list \<Rightarrow> signalDefinition list"
  where
  "signalRowsLoop [] signalDefinitions = signalDefinitions"
| "signalRowsLoop (r # rs) signalDefinitions =
     (if name r = [] then signalRowsLoop rs signalDefinitions
      else signalRowsLoop rs (signalDefinitions @ [r]))"

definition readSignalDefinitions :: "signalDefinition list \<Rightarrow> signalDefinition list \<times> real"
  where
  "readSignalDefinitions signalsTab =
     (let signalDefinitions = signalRowsLoop signalsTab []
      in (signalDefinitions, calculateSumWeights signalDefinitions))"

section \<open>The Kratu script: scoring (signalManager)\<close>

text \<open>
  \<open>normalize\<close>. The value is what \<open>calculateRawSignals\<close> stored: a number, or the
  string of the report; the comparisons with \<open>max\<close> and \<open>min\<close> and the subtraction
  convert it to a number.
\<close>

definition normalize :: "signalDefinition \<Rightarrow> jsval \<Rightarrow> jsval" where
  "normalize signalDefinition v =
     (if direction signalDefinition = ''High'' then
        (if js_ge (to_number v) (Num (max_d signalDefinition)) then JNumber (Num 1)
         else if js_le (to_number v) (Num (min_d signalDefinition)) then JNumber (Num 0)
         else JNumber (js_div (js_sub (to_number v) (Num (min_d signalDefinition)))
                 (js_sub (Num (max_d signalDefinition)) (Num (min_d signalDefinition)))))
      else if direction signalDefinition = ''Low'' then
        (if js_ge (to_number v) (Num (max_d signalDefinition)) then JNumber (Num 0)
         else if js_le (to_number v) (Num (min_d signalDefinition)) then JNumber (Num 1)
         else JNumber (js_sub (Num 1)
                 (js_div (js_sub (to_number v) (Num (min_d signalDefinition)))
                    (js_sub (Num (max_d signalDefinition)) (Num (min_d signalDefinition))))))
      else v)"

text \<open>
  The entry of \<open>accountInfo.signals\<close> for one signal; \<open>normalizedValue\<close> and
  \<open>signalScore\<close> are set for signals of type \<open>Number\<close> only.
\<close>

record signalEntry =
  definition_e :: signalDefinition
  value_e :: jsval
  displayValue :: jsval
  normalizedValue :: "jsval option"
  signalScore :: "jsnum option"

record accountInfo =
  account :: string
  rawSignals :: "string \<rightharpoonup> jsval"
  signals :: "string \<rightharpoonup> signalEntry"
  scoreSum :: jsnum
  scoreWeights :: real
  score :: jsnum

text \<open>Reading a property of an object: \<open>undefined\<close> when the object has none.\<close>

definition property :: "(string \<rightharpoonup> jsval) \<Rightarrow> string \<Rightarrow> jsval" where
  "property obj k = (case obj k of None \<Rightarrow> JUndefined | Some v \<Rightarrow> v)"

text \<open>
  The loop of \<open>processSignals\<close>, with the object \<open>accountInfo.signals\<close> and the
  variable \<open>sumScore\<close>.
\<close>

fun processSignalsLoop ::
  "signalDefinition list \<Rightarrow> (string \<rightharpoonup> jsval) \<Rightarrow> (string \<rightharpoonup> signalEntry) \<Rightarrow> jsnum
     \<Rightarrow> (string \<rightharpoonup> signalEntry) \<times> jsnum" where
  "processSignalsLoop [] raw sigs sumScore = (sigs, sumScore)"
| "processSignalsLoop (d # ds) raw sigs sumScore =
     (if includeInReport d = ''Yes'' then
        (let v = property raw (name d);
             entry = \<lparr>definition_e = d, value_e = v, displayValue = v,
                      normalizedValue = None, signalScore = None\<rparr>
         in if type_d d = ''Number'' then
              (let nv = normalize d v;
                   sc = js_mul (to_number nv) (Num (weight d))
               in processSignalsLoop ds raw
                    (sigs(name d \<mapsto> entry\<lparr>normalizedValue := Some nv, signalScore := Some sc\<rparr>))
                    (js_add sumScore sc))
            else processSignalsLoop ds raw (sigs(name d \<mapsto> entry)) sumScore)
      else processSignalsLoop ds raw sigs sumScore)"

definition processSignals ::
  "signalDefinition list \<Rightarrow> real \<Rightarrow> accountInfo \<Rightarrow> accountInfo" where
  "processSignals signalDefinitions sumWeights info =
     (case processSignalsLoop signalDefinitions (rawSignals info) Map.empty (Num 0) of
        (sigs, sumScore) \<Rightarrow>
          info\<lparr>signals := sigs, scoreSum := sumScore, scoreWeights := sumWeights,
               score := js_div sumScore (Num sumWeights)\<rparr>)"

text \<open>
  \<open>calculateRawSignals\<close>. The value of a report row is a string; one that holds a
  percent sign is replaced by the number \<open>parseFloat\<close> reads from it, divided by 100.
\<close>

definition percentToFraction :: "string \<Rightarrow> jsval" where
  "percentToFraction v =
     (if CHR ''%'' \<in> set v then JNumber (js_div (parseFloat v) (Num 100)) else JString v)"

text \<open>
  The inner loop over the signal definitions for one row of the report. A row without
  the field gives \<open>undefined\<close>, whose \<open>indexOf\<close> is a type error.
\<close>

fun rawSignalsOfRow ::
  "signalDefinition list \<Rightarrow> (string \<rightharpoonup> string) \<Rightarrow> (string \<rightharpoonup> jsval)
     \<Rightarrow> error + (string \<rightharpoonup> jsval)" where
  "rawSignalsOfRow [] row raw = Inr raw"
| "rawSignalsOfRow (d # ds) row raw =
     (case row (name d) of
        None \<Rightarrow> Inl TypeError
      | Some v \<Rightarrow> rawSignalsOfRow ds row (raw(name d \<mapsto> percentToFraction v)))"

fun rawSignalsOfRows ::
  "signalDefinition list \<Rightarrow> (string \<rightharpoonup> string) list \<Rightarrow> (string \<rightharpoonup> jsval)
     \<Rightarrow> error + (string \<rightharpoonup> jsval)" where
  "rawSignalsOfRows ds [] raw = Inr raw"
| "rawSignalsOfRows ds (row # rows) raw =
     (case rawSignalsOfRow ds row raw of
        Inl e \<Rightarrow> Inl e
      | Inr raw' \<Rightarrow> rawSignalsOfRows ds rows raw')"

text \<open>
  The rows are those of the account performance report of the selected account for the
  period of the mandatory setting \<open>ReportPeriod\<close>, which is read first.
\<close>

definition calculateRawSignals ::
  "setting list \<Rightarrow> signalDefinition list \<Rightarrow> (string \<rightharpoonup> string) list
     \<Rightarrow> error + (string \<rightharpoonup> jsval)" where
  "calculateRawSignals settings signalDefinitions rows =
     (case getSetting settings ''ReportPeriod'' True of
        Inl e \<Rightarrow> Inl e
      | Inr period \<Rightarrow> rawSignalsOfRows signalDefinitions rows Map.empty)"

text \<open>
  \<open>signalManager.processAccount\<close>: the account info of one account, appended to the
  list of the invocation.
\<close>

definition processAccountSignals ::
  "setting list \<Rightarrow> signalDefinition list \<Rightarrow> real \<Rightarrow> (string \<rightharpoonup> string) list \<Rightarrow> string
     \<Rightarrow> accountInfo list \<Rightarrow> error + accountInfo list" where
  "processAccountSignals settings signalDefinitions sumWeights rows cid accountInfos =
     (case calculateRawSignals settings signalDefinitions rows of
        Inl e \<Rightarrow> Inl e
      | Inr raw \<Rightarrow>
          Inr (accountInfos @
                 [processSignals signalDefinitions sumWeights
                    \<lparr>account = cid, rawSignals = raw, signals = Map.empty,
                     scoreSum = Num 0, scoreWeights = 0, score = Num 0\<rparr>]))"

section \<open>Reference definitions and example inputs\<close>

text \<open>
  The normalization of a signal with direction \<open>High\<close> as the specification words it:
  the linear ramp from \<open>min\<close> to \<open>max\<close>, clamped to the interval from 0 to 1. It is
  compared with \<open>normalize\<close> below.
\<close>

definition clampedRamp :: "real \<Rightarrow> real \<Rightarrow> real \<Rightarrow> real" where
  "clampedRamp lo hi v = max 0 (min 1 ((v - lo) / (hi - lo)))"

text \<open>
  The example signal of the specification: direction \<open>High\<close>, \<open>min = 0.01\<close>,
  \<open>max = 0.10\<close>, weight 2; and a signal of type \<open>Number\<close> with direction \<open>None\<close>.
\<close>

definition ctr :: signalDefinition where
  "ctr = \<lparr>name = ''Ctr'', displayName = ''CTR'', includeInReport = ''Yes'', type_d = ''Number'',
           direction = ''High'', format = ''0.00%'', weight = 2, min_d = 0.01, max_d = 0.10\<rparr>"

definition clicks :: signalDefinition where
  "clicks = \<lparr>name = ''Clicks'', displayName = ''Clicks'', includeInReport = ''Yes'',
              type_d = ''Number'', direction = ''None'', format = ''0'', weight = 2,
              min_d = 0, max_d = 0\<rparr>"

text \<open>Settings that hold the one setting the scoring reads, the report period.\<close>

definition settings0 :: "setting list" where
  "settings0 = [\<lparr>key = ''ReportPeriod'', type_s = ''String'', value_s = JString ''LAST_30_DAYS''\<rparr>]"

section \<open>The Kratu script: spreadsheets and run state (spreadsheetManager)\<close>

text \<open>
  The rows of the Accounts tab (customer id, processed timestamp) and of the History tab
  (start timestamp, end timestamp, URL of the report spreadsheet), below their header
  rows; the report tab of a run spreadsheet, with its header row (row 4) and the data
  rows appended to it; an account of the manager account, with the names of its labels.
\<close>

record accountRow =
  cid :: string
  processedCell :: cell

record runRow =
  startCell :: cell
  endCell :: cell
  urlCell :: string

record report =
  headerRow :: "jsval list"
  dataRows :: "jsval list list"

record mccAccount =
  getCustomerId :: string
  labelNames :: "string list"

record mail =
  mailTo :: jsval
  mailSubject :: string
  mailBody :: string

text \<open>
  What an invocation reads from outside: the clock (time does not advance during the
  invocation), the accounts under the manager account in the order of their iterator,
  the rows of the account performance report of each account for the report period,
  the URL of the copy that \<open>addRun\<close> makes of the main spreadsheet, and the order in
  which \<open>sort\<close> of the script engine arranges an array with given scores: the positions
  of the array, in the order in which their elements stand after the sort.
\<close>

record env =
  getTimestamp :: int
  mccAccounts :: "mccAccount list"
  accountReport :: "string \<Rightarrow> (string \<rightharpoonup> string) list"
  copyUrl :: string
  sortOrder :: "jsnum list \<Rightarrow> nat list"

text \<open>
  The state: the tabs of the main spreadsheet, the sheet protections, the run
  spreadsheets by URL and the mails sent, which outlive an invocation; and the variables
  of the three modules, which every invocation initializes anew.
\<close>

record kratu =
  accountsTab :: "accountRow list"
  historyTab :: "runRow list"
  signalsTab :: "signalDefinition list"
  settingsTab :: "settingRow list"
  templateTab :: report
  protectedTabs :: "string set"
  runSheets :: "string \<rightharpoonup> report"
  outbox :: "mail list"
  currentRunSheet :: "string option"
  processedAccounts :: nat
  signalDefinitions :: "signalDefinition list"
  sumWeights :: real
  settings :: "setting list"
  accountInfos :: "accountInfo list"

text \<open>A call returns a value or throws, and leaves a state either way.\<close>

datatype 'a outcome = Return 'a kratu | Throw error kratu

text \<open>
  The initializers of the module variables. The URL of the main spreadsheet is
  configured, so that \<open>validateConfig\<close> passes and the spreadsheet opens.
\<close>

definition moduleInit :: "kratu \<Rightarrow> kratu" where
  "moduleInit s = s\<lparr>currentRunSheet := None, processedAccounts := 0, signalDefinitions := [],
                     sumWeights := 0, settings := [], accountInfos := []\<rparr>"

definition init :: "kratu \<Rightarrow> kratu" where
  "init s =
     (case readSignalDefinitions (signalsTab s) of
        (ds, w) \<Rightarrow>
          s\<lparr>signalDefinitions := ds, sumWeights := w,
            settings := readSettingsLoop (settingsTab s) (settings s)\<rparr>)"

text \<open>
  The protection of the three configuration sheets, by the names of the sheets. The
  user of the script may edit the protections, so that \<open>removeProtection\<close> removes
  them.
\<close>

definition protectedSheets :: "string set" where
  "protectedSheets = {''Signals'', ''Settings'', ''Template''}"

definition setProtection :: "kratu \<Rightarrow> kratu" where
  "setProtection s = s\<lparr>protectedTabs := protectedTabs s \<union> protectedSheets\<rparr>"

definition removeProtection :: "kratu \<Rightarrow> kratu" where
  "removeProtection s = s\<lparr>protectedTabs := protectedTabs s - protectedSheets\<rparr>"

text \<open>
  \<open>addRun\<close>: the copy of the spreadsheet, whose template tab becomes the report tab,
  and a new row of the History tab with the start timestamp and no end timestamp.
\<close>

definition addRun :: "env \<Rightarrow> kratu \<Rightarrow> kratu" where
  "addRun e s =
     s\<lparr>runSheets := (runSheets s)(copyUrl e \<mapsto> templateTab s),
       historyTab := historyTab s @
         [\<lparr>startCell = CNumber (real_of_int (getTimestamp e)), endCell = CString [],
           urlCell = copyUrl e\<rparr>]\<rparr>"

definition hasUnfinishedRun :: "kratu \<Rightarrow> bool" where
  "hasUnfinishedRun s =
     (if historyTab s = [] then False
      else if truthy (js_of_cell (endCell (last (historyTab s)))) then False
      else True)"

definition markRunAsProcessed :: "env \<Rightarrow> kratu \<Rightarrow> kratu" where
  "markRunAsProcessed e s =
     (if historyTab s \<noteq> [] then
        s\<lparr>historyTab := butlast (historyTab s) @
             [(last (historyTab s))\<lparr>endCell := CNumber (real_of_int (getTimestamp e))\<rparr>]\<rparr>
      else s)"

definition getLastReportStartTimestamp :: "kratu \<Rightarrow> jsval" where
  "getLastReportStartTimestamp s =
     (if historyTab s \<noteq> [] then js_of_cell (startCell (last (historyTab s))) else JNull)"

text \<open>
  \<open>getCurrentRunSheet\<close>: the cached spreadsheet, or the one that the URL of the last
  row of the History tab opens; with no run in the tab the cell read is that of the
  header row, which opens none. The handle of a run spreadsheet is its URL.
\<close>

definition getCurrentRunSheet :: "kratu \<Rightarrow> string outcome" where
  "getCurrentRunSheet s =
     (case currentRunSheet s of
        Some u \<Rightarrow> Return u s
      | None \<Rightarrow>
          if historyTab s = [] then Throw OpenException s
          else (case runSheets s (urlCell (last (historyTab s))) of
                  None \<Rightarrow> Throw OpenException s
                | Some r \<Rightarrow>
                    Return (urlCell (last (historyTab s)))
                      (s\<lparr>currentRunSheet := Some (urlCell (last (historyTab s)))\<rparr>)))"

definition addAccount :: "string \<Rightarrow> kratu \<Rightarrow> kratu" where
  "addAccount c s = s\<lparr>accountsTab := accountsTab s @ [\<lparr>cid = c, processedCell = CString []\<rparr>]\<rparr>"

text \<open>
  \<open>markAccountAsProcessed\<close>: the loop over the rows, with the rows already visited and
  the counter \<open>processedAccounts\<close>. A range of no rows is an exception of the
  spreadsheet service.
\<close>

fun markLoop :: "int \<Rightarrow> string \<Rightarrow> accountRow list \<Rightarrow> accountRow list \<times> nat" where
  "markLoop t c [] = ([], 0)"
| "markLoop t c (r # rs) =
     (case markLoop t c rs of
        (rs', k) \<Rightarrow>
          if c = cid r then (r\<lparr>processedCell := CNumber (real_of_int t)\<rparr> # rs', k + 1)
          else (r # rs', k))"

definition markAccountAsProcessed :: "env \<Rightarrow> string \<Rightarrow> kratu \<Rightarrow> unit outcome" where
  "markAccountAsProcessed e c s =
     (if accountsTab s = [] then Throw RangeException s
      else (case markLoop (getTimestamp e) c (accountsTab s) of
              (rows, k) \<Rightarrow>
                Return () (s\<lparr>accountsTab := rows, processedAccounts := processedAccounts s + k\<rparr>)))"

definition clearAllAccountInfo :: "kratu \<Rightarrow> kratu" where
  "clearAllAccountInfo s = (if accountsTab s \<noteq> [] then s\<lparr>accountsTab := []\<rparr> else s)"

text \<open>
  \<open>getUnprocessedAccounts\<close>: the loop over the rows, with the array \<open>accounts\<close>. The
  setting is read only at a row whose processed cell equals the empty string.
\<close>

fun unprocessedLoop :: "setting list \<Rightarrow> accountRow list \<Rightarrow> string list \<Rightarrow> error + string list"
  where
  "unprocessedLoop st [] accounts = Inr accounts"
| "unprocessedLoop st (r # rs) accounts =
     (if \<not> loose_eq (js_of_cell (processedCell r)) (JString []) then unprocessedLoop st rs accounts
      else (case getSetting st ''NumAccountsProcess'' True of
              Inl e \<Rightarrow> Inl e
            | Inr n \<Rightarrow>
                if js_ge (Num (real (length accounts))) (to_number n)
                then unprocessedLoop st rs accounts
                else unprocessedLoop st rs (accounts @ [cid r])))"

definition getUnprocessedAccounts :: "kratu \<Rightarrow> error + string list" where
  "getUnprocessedAccounts s =
     (if accountsTab s = [] then Inl RangeException
      else unprocessedLoop (settings s) (accountsTab s) [])"

text \<open>
  \<open>getUnprocessedAccountIterator\<close>: the accounts under the manager account whose ids
  are in the array.
\<close>

definition getUnprocessedAccountIterator :: "env \<Rightarrow> kratu \<Rightarrow> error + mccAccount list" where
  "getUnprocessedAccountIterator e s =
     (case getUnprocessedAccounts s of
        Inl x \<Rightarrow> Inl x
      | Inr accounts \<Rightarrow> Inr (filter (\<lambda>a. getCustomerId a \<in> set accounts) (mccAccounts e)))"

fun allProcessedLoop :: "accountRow list \<Rightarrow> bool" where
  "allProcessedLoop [] = True"
| "allProcessedLoop (r # rs) =
     (if truthy (js_of_cell (processedCell r)) then allProcessedLoop rs else False)"

definition allAccountsProcessed :: "kratu \<Rightarrow> error + bool" where
  "allAccountsProcessed s =
     (if accountsTab s = [] then Inl RangeException else Inr (allProcessedLoop (accountsTab s)))"

text \<open>
  \<open>writeHeaderRow\<close> and \<open>writeDataRow\<close>: the values written to the report tab of the
  current run spreadsheet. The header row is written over row 4, a data row is appended.
  Formats and colours of the cells are not part of the model.
\<close>

fun headerLoop :: "signalDefinition list \<Rightarrow> jsval list \<Rightarrow> jsval list" where
  "headerLoop [] row = row"
| "headerLoop (d # ds) row =
     (if includeInReport d = ''Yes'' then headerLoop ds (row @ [JString (displayName d)])
      else headerLoop ds row)"

definition writeHeaderRow :: "kratu \<Rightarrow> unit outcome" where
  "writeHeaderRow s =
     (case getCurrentRunSheet s of
        Throw x s1 \<Rightarrow> Throw x s1
      | Return u s1 \<Rightarrow>
          (case runSheets s1 u of
             None \<Rightarrow> Throw OpenException s1
           | Some r \<Rightarrow>
               Return ()
                 (s1\<lparr>runSheets := (runSheets s1)
                       (u \<mapsto> r\<lparr>headerRow :=
                              headerLoop (signalDefinitions s1) [JString []] @ [JString ''Score'']\<rparr>)\<rparr>)))"

fun dataLoop :: "signalDefinition list \<Rightarrow> accountInfo \<Rightarrow> jsval list \<Rightarrow> error + jsval list"
  where
  "dataLoop [] info row = Inr row"
| "dataLoop (d # ds) info row =
     (if includeInReport d = ''Yes'' then
        (case signals info (name d) of
           None \<Rightarrow> Inl TypeError
         | Some x \<Rightarrow> dataLoop ds info (row @ [displayValue x]))
      else dataLoop ds info row)"

definition writeDataRow :: "accountInfo \<Rightarrow> kratu \<Rightarrow> unit outcome" where
  "writeDataRow info s =
     (case getCurrentRunSheet s of
        Throw x s1 \<Rightarrow> Throw x s1
      | Return u s1 \<Rightarrow>
          (case runSheets s1 u of
             None \<Rightarrow> Throw OpenException s1
           | Some r \<Rightarrow>
               (case dataLoop (signalDefinitions s1) info [JString []] of
                  Inl x \<Rightarrow> Throw x s1
                | Inr row \<Rightarrow>
                    Return ()
                      (s1\<lparr>runSheets := (runSheets s1)
                            (u \<mapsto> r\<lparr>dataRows := dataRows r @ [row @ [JNumber (score info)]]\<rparr>)\<rparr>))))"

text \<open>
  \<open>getAccountInfos\<close> sorts the array in place with the comparator
  \<open>b.score - a.score\<close>. The language leaves to the engine how a sort arranges the
  elements that the comparator does not separate, and the whole order when the
  comparator is not consistent, which is the case with a score NaN among numbers: the
  comparator answers NaN there, which counts as 0. What the language fixes is that the
  result is a rearrangement of the array, and that it is in the order of the comparator
  when that is consistent. So the order of the result is the one the engine gives. An
  answer that no sort can give (one that is no rearrangement of the positions, or one
  that is not in descending order of the scores although no score is NaN) is replaced
  by an insertion sort.
\<close>

definition compareScores :: "accountInfo \<Rightarrow> accountInfo \<Rightarrow> jsnum" where
  "compareScores a b = js_sub (score b) (score a)"

fun insertByScore :: "accountInfo \<Rightarrow> accountInfo list \<Rightarrow> accountInfo list" where
  "insertByScore a [] = [a]"
| "insertByScore a (b # bs) =
     (if js_lt (compareScores a b) (Num 0) then a # b # bs
      else b # insertByScore a bs)"

definition rearrangement :: "nat list \<Rightarrow> nat \<Rightarrow> bool" where
  "rearrangement p n = (length p = n \<and> distinct p \<and> list_all (\<lambda>i. i < n) p)"

definition descending :: "accountInfo list \<Rightarrow> bool" where
  "descending infos = sorted_wrt (\<lambda>a b. \<not> js_lt (Num 0) (compareScores a b)) infos"

definition sortByScore :: "(jsnum list \<Rightarrow> nat list) \<Rightarrow> accountInfo list \<Rightarrow> accountInfo list"
  where
  "sortByScore order infos =
     (let p = order (map score infos); arranged = map (\<lambda>i. infos ! i) p in
      if rearrangement p (length infos)
         \<and> (list_ex (\<lambda>a. score a = NaN) infos \<or> descending arranged)
      then arranged
      else foldl (\<lambda>arranged a. insertByScore a arranged) [] infos)"

definition getAccountInfos :: "env \<Rightarrow> kratu \<Rightarrow> kratu" where
  "getAccountInfos e s = s\<lparr>accountInfos := sortByScore (sortOrder e) (accountInfos s)\<rparr>"

fun writeDataRows :: "accountInfo list \<Rightarrow> kratu \<Rightarrow> unit outcome" where
  "writeDataRows [] s = Return () s"
| "writeDataRows (info # infos) s =
     (case writeDataRow info s of
        Throw x s1 \<Rightarrow> Throw x s1
      | Return u s1 \<Rightarrow> writeDataRows infos s1)"

definition writeAccountDataToSpreadsheet :: "env \<Rightarrow> kratu \<Rightarrow> unit outcome" where
  "writeAccountDataToSpreadsheet e s =
     (case writeHeaderRow (getAccountInfos e s) of
        Throw x s1 \<Rightarrow> Throw x s1
      | Return u s1 \<Rightarrow> writeDataRows (accountInfos s1) s1)"

text \<open>
  \<open>processAccount\<close> of the main script: the signals of the account are computed and
  scored, then the account is marked as processed.
\<close>

definition processAccount :: "env \<Rightarrow> mccAccount \<Rightarrow> kratu \<Rightarrow> unit outcome" where
  "processAccount e a s =
     (case processAccountSignals (settings s) (signalDefinitions s) (sumWeights s)
             (accountReport e (getCustomerId a)) (getCustomerId a) (accountInfos s) of
        Inl x \<Rightarrow> Throw x s
      | Inr infos \<Rightarrow> markAccountAsProcessed e (getCustomerId a) (s\<lparr>accountInfos := infos\<rparr>))"

definition sendEmail :: "kratu \<Rightarrow> unit outcome" where
  "sendEmail s =
     (case getSetting (settings s) ''RecipientEmail'' False of
        Inl x \<Rightarrow> Throw x s
      | Inr recipientEmail \<Rightarrow>
          if truthy recipientEmail then
            (case getCurrentRunSheet s of
               Throw x s1 \<Rightarrow> Throw x s1
             | Return u s1 \<Rightarrow>
                 Return ()
                   (s1\<lparr>outbox := outbox s1 @
                         [\<lparr>mailTo = recipientEmail, mailSubject = ''Kratu Report is ready'',
                           mailBody = u\<rparr>]\<rparr>))
          else Return () s)"

text \<open>
  \<open>dayDifference\<close> is \<open>parseInt\<close> of a quotient. \<open>parseInt\<close> reads the integer at the
  start of the decimal string of the number: the number truncated towards zero, but
  the first digit when the string is in exponent notation (below \<open>10\<^sup>-\<^sup>6\<close> and from
  \<open>10\<^sup>2\<^sup>1\<close> on), and NaN for NaN and the infinities.
\<close>

fun scaled_digit :: "nat \<Rightarrow> real \<Rightarrow> real" where
  "scaled_digit 0 q = real_of_int \<lfloor>q\<rfloor>"
| "scaled_digit (Suc n) q =
     (if 10 \<le> q then scaled_digit n (q / 10)
      else if q < 1 then scaled_digit n (q * 10)
      else real_of_int \<lfloor>q\<rfloor>)"

text \<open>The first digit of a positive double: 400 decimal places cover their range.\<close>

definition leading_digit :: "real \<Rightarrow> real" where
  "leading_digit q = scaled_digit 400 q"

definition parseInt :: "jsnum \<Rightarrow> jsnum" where
  "parseInt x =
     (case x of
        Num q \<Rightarrow>
          if q = 0 then Num 0
          else if 1 / 10 ^ 6 \<le> \<bar>q\<bar> \<and> \<bar>q\<bar> < 10 ^ 21 then Num (sgn q * real_of_int \<lfloor>\<bar>q\<bar>\<rfloor>)
          else Num (sgn q * leading_digit \<bar>q\<bar>)
      | _ \<Rightarrow> NaN)"

definition dayDifference :: "jsval \<Rightarrow> jsval \<Rightarrow> jsnum" where
  "dayDifference time1 time2 =
     parseInt (js_div (js_sub (to_number time2) (to_number time1)) (Num (24 * 3600 * 1000)))"

text \<open>
  The loop of \<open>continueUnfinishedReport\<close> over the iterator, with the counter
  \<open>processed\<close>: the counter is incremented when the comparison with the setting is
  evaluated, also when the comparison ends the loop.
\<close>

fun batchLoop :: "env \<Rightarrow> mccAccount list \<Rightarrow> nat \<Rightarrow> kratu \<Rightarrow> nat outcome" where
  "batchLoop e [] processed s = Return processed s"
| "batchLoop e (a # iterator) processed s =
     (case getSetting (settings s) ''NumAccountsProcess'' True of
        Inl x \<Rightarrow> Throw x s
      | Inr n \<Rightarrow>
          if js_lt (Num (real processed)) (to_number n) then
            (case processAccount e a s of
               Throw x s1 \<Rightarrow> Throw x s1
             | Return u s1 \<Rightarrow> batchLoop e iterator (processed + 1) s1)
          else Return (processed + 1) s)"

text \<open>
  The end of \<open>continueUnfinishedReport\<close>: with a positive counter and all accounts
  processed, the protection is removed, the run is marked and the mail is sent.
\<close>

definition completeRun :: "env \<Rightarrow> nat \<Rightarrow> kratu \<Rightarrow> nat outcome" where
  "completeRun e processed s =
     (if processed > 0 then
        (case allAccountsProcessed s of
           Inl x \<Rightarrow> Throw x s
         | Inr b \<Rightarrow>
             if b then
               (case sendEmail (markRunAsProcessed e (removeProtection s)) of
                  Throw x s1 \<Rightarrow> Throw x s1
                | Return u s1 \<Rightarrow> Return processed s1)
             else Return processed s)
      else Return processed s)"

text \<open>
  \<open>continueUnfinishedReport\<close>. The result is the value of \<open>processed\<close> that the last
  line logs.
\<close>

definition continueUnfinishedReport :: "env \<Rightarrow> kratu \<Rightarrow> nat outcome" where
  "continueUnfinishedReport e s =
     (case getCurrentRunSheet s of
        Throw x s1 \<Rightarrow> Throw x s1
      | Return u s1 \<Rightarrow>
          (case getUnprocessedAccountIterator e s1 of
             Inl x \<Rightarrow> Throw x s1
           | Inr iterator \<Rightarrow>
               (case batchLoop e iterator 0 s1 of
                  Throw x s2 \<Rightarrow> Throw x s2
                | Return processed s2 \<Rightarrow>
                    (case writeAccountDataToSpreadsheet e s2 of
                       Throw x s3 \<Rightarrow> Throw x s3
                     | Return v s3 \<Rightarrow> completeRun e processed s3))))"

text \<open>
  \<open>startNewReport\<close>. The label of the setting \<open>AccountLabel\<close>, when it is set,
  restricts the accounts to those that carry it; a label is a string.
\<close>

definition labelled :: "jsval \<Rightarrow> mccAccount \<Rightarrow> bool" where
  "labelled accountLabel a =
     (case accountLabel of JString l \<Rightarrow> l \<in> set (labelNames a) | _ \<Rightarrow> False)"

fun addAccounts :: "mccAccount list \<Rightarrow> kratu \<Rightarrow> kratu" where
  "addAccounts [] s = s"
| "addAccounts (a # accountIterator) s = addAccounts accountIterator (addAccount (getCustomerId a) s)"

definition startNewReport :: "env \<Rightarrow> kratu \<Rightarrow> unit outcome" where
  "startNewReport e s =
     (let s1 = clearAllAccountInfo (setProtection s) in
      case getSetting (settings s1) ''AccountLabel'' False of
        Inl x \<Rightarrow> Throw x s1
      | Inr accountLabel \<Rightarrow>
          Return ()
            (addRun e
               (addAccounts
                  (if truthy accountLabel then filter (labelled accountLabel) (mccAccounts e)
                   else mccAccounts e)
                  s1)))"

text \<open>
  \<open>main\<close>, on the state that the initializers of the modules leave, and a whole
  invocation of the script.
\<close>

definition main :: "env \<Rightarrow> kratu \<Rightarrow> unit outcome" where
  "main e s0 =
     (let s = init s0 in
      if hasUnfinishedRun s then
        (case continueUnfinishedReport e s of
           Throw x s1 \<Rightarrow> Throw x s1
         | Return processed s1 \<Rightarrow> Return () s1)
      else
        (case getSetting (settings s) ''ReportFrequency'' True of
           Inl x \<Rightarrow> Throw x s
         | Inr reportFrequency \<Rightarrow>
             let lastReportStart = getLastReportStartTimestamp s in
             if \<not> truthy lastReportStart
                \<or> js_ge (dayDifference lastReportStart
                           (JNumber (Num (real_of_int (getTimestamp e)))))
                     (to_number reportFrequency)
             then startNewReport e s
             else Return () s))"

definition invocation :: "env \<Rightarrow> kratu \<Rightarrow> unit outcome" where
  "invocation e s = main e (moduleInit s)"

text \<open>
  The value that \<open>readSettings\<close> takes from a row of the Settings tab (the background of
  the cell for a setting of type \<open>Color\<close>), and what \<open>getSetting\<close> throws for a
  mandatory setting.
\<close>

definition rowValue :: "settingRow \<Rightarrow> jsval" where
  "rowValue r = (if typeCell r = ''Color'' then JString (background r) else js_of_cell (valueCell r))"

definition notSet :: "string \<Rightarrow> error" where
  "notSet k = Thrown (''Setting '' @ [CHR 0x27] @ k @ [CHR 0x27] @ '' is not set!'')"

text \<open>The state that an outcome leaves.\<close>

fun state_of :: "'a outcome \<Rightarrow> kratu" where
  "state_of (Return v s) = s"
| "state_of (Throw x s) = s"

text \<open>
  Example inputs. A Settings tab with a report frequency of 7 days, a batch size of 2, a
  report period and a recipient; an empty report tab; a state with an open run over
  three accounts, the first of which is processed; the three accounts under the manager
  account, each with a click-through rate of 5 percent, and an engine whose sort leaves
  an array that is in order as it is.
\<close>

definition settingsRows :: "cell \<Rightarrow> cell \<Rightarrow> settingRow list" where
  "settingsRows frequency batch =
     [\<lparr>keyCell = ''ReportFrequency'', typeCell = ''Number'', valueCell = frequency,
        background = ''#ffffff''\<rparr>,
      \<lparr>keyCell = ''NumAccountsProcess'', typeCell = ''Number'', valueCell = batch,
        background = ''#ffffff''\<rparr>,
      \<lparr>keyCell = ''ReportPeriod'', typeCell = ''String'', valueCell = CString ''LAST_30_DAYS'',
        background = ''#ffffff''\<rparr>,
      \<lparr>keyCell = ''RecipientEmail'', typeCell = ''String'', valueCell = CString ''a@b.c'',
        background = ''#ffffff''\<rparr>]"

definition emptyReport :: report where
  "emptyReport = \<lparr>headerRow = [], dataRows = []\<rparr>"

definition openRun :: "signalDefinition list \<Rightarrow> settingRow list \<Rightarrow> accountRow list \<Rightarrow> kratu" where
  "openRun sigs sets accs =
     \<lparr>accountsTab = accs,
      historyTab = [\<lparr>startCell = CNumber 1000, endCell = CString [], urlCell = ''run1''\<rparr>],
      signalsTab = sigs, settingsTab = sets, templateTab = emptyReport,
      protectedTabs = protectedSheets, runSheets = [''run1'' \<mapsto> emptyReport], outbox = [],
      currentRunSheet = None, processedAccounts = 0, signalDefinitions = [], sumWeights = 0,
      settings = [], accountInfos = []\<rparr>"

definition threeAccounts :: "accountRow list" where
  "threeAccounts = [\<lparr>cid = ''1'', processedCell = CNumber 1500\<rparr>,
                    \<lparr>cid = ''2'', processedCell = CString []\<rparr>,
                    \<lparr>cid = ''3'', processedCell = CString []\<rparr>]"

definition env0 :: env where
  "env0 = \<lparr>getTimestamp = 2000,
            mccAccounts = [\<lparr>getCustomerId = ''1'', labelNames = []\<rparr>,
                           \<lparr>getCustomerId = ''2'', labelNames = []\<rparr>,
                           \<lparr>getCustomerId = ''3'', labelNames = []\<rparr>],
            accountReport = (\<lambda>c. [[''Ctr'' \<mapsto> ''5%'']]),
            copyUrl = ''run2'',
            sortOrder = (\<lambda>scores. [0..<length scores])\<rparr>"

text \<open>
  Notions for the statements on the run state: an account row that is not processed (its
  timestamp cell is falsy); the rows after the accounts of a list of ids have been
  marked; the mails that \<open>sendEmail\<close> sends; the History tab after its last run has
  got its end timestamp; a History tab in which no run but the last is open, and the
  open runs of a History tab.
\<close>

definition markedRows :: "int \<Rightarrow> string list \<Rightarrow> accountRow list \<Rightarrow> accountRow list" where
  "markedRows t cs rows =
     map (\<lambda>r. if cid r \<in> set cs then r\<lparr>processedCell := CNumber (real_of_int t)\<rparr> else r) rows"

definition unprocessed :: "accountRow \<Rightarrow> bool" where
  "unprocessed r = (\<not> truthy (js_of_cell (processedCell r)))"

text \<open>
  The batch of an invocation whose batch size is the number \<open>x\<close>: the customer ids
  selected are those of the first \<open>\<lceil>x\<rceil>\<close> unprocessed rows of the Accounts tab, and the
  batch is the first \<open>\<lceil>x\<rceil>\<close> of the accounts under the manager account with a selected
  id, in the order of the iterator.
\<close>

definition selected :: "real \<Rightarrow> accountRow list \<Rightarrow> string list" where
  "selected x rows = take (nat \<lceil>x\<rceil>) (map cid (filter unprocessed rows))"

definition batch :: "real \<Rightarrow> env \<Rightarrow> accountRow list \<Rightarrow> mccAccount list" where
  "batch x e rows =
     take (nat \<lceil>x\<rceil>) (filter (\<lambda>a. getCustomerId a \<in> set (selected x rows)) (mccAccounts e))"

definition readyMails :: "setting list \<Rightarrow> string \<Rightarrow> mail list" where
  "readyMails st u =
     (case getSetting st ''RecipientEmail'' False of
        Inr r \<Rightarrow> if truthy r then [\<lparr>mailTo = r, mailSubject = ''Kratu Report is ready'', mailBody = u\<rparr>]
                 else []
      | Inl x \<Rightarrow> [])"

definition closedHistory :: "env \<Rightarrow> runRow list \<Rightarrow> runRow list" where
  "closedHistory e h = butlast h @ [(last h)\<lparr>endCell := CNumber (real_of_int (getTimestamp e))\<rparr>]"

definition onlyLastOpen :: "runRow list \<Rightarrow> bool" where
  "onlyLastOpen h = list_all (\<lambda>r. truthy (js_of_cell (endCell r))) (butlast h)"

definition openRuns :: "runRow list \<Rightarrow> runRow list" where
  "openRuns h = filter (\<lambda>r. \<not> truthy (js_of_cell (endCell r))) h"

text \<open>An Accounts tab whose accounts are all processed.\<close>

definition twoProcessed :: "accountRow list" where
  "twoProcessed = [\<lparr>cid = ''1'', processedCell = CNumber 1500\<rparr>,
                   \<lparr>cid = ''2'', processedCell = CNumber 1600\<rparr>]"

section \<open>Properties of the campaign alert script\<close>

text \<open>
  Claim C10. The alert script is to send exactly one mail if and only if at least one
  enabled campaign had zero impressions yesterday. The file as committed does not do
  so: its first string literal, in line 5, opens with the typographic quotation mark
  U+201C, which is a syntax error, so that the script sends no mail whatever the
  campaigns are and whatever its \<open>main\<close> would do; in particular it sends none when an
  enabled campaign had zero impressions yesterday.
\<close>

theorem alert_script_sends_no_mail:
  "scanScript part_000 = SyntaxError 5 \<and> runScript part_000 program campaigns = []"
  by (simp add: runScript_def scanScript_def part_000_def ascii_def stray_def)

theorem alert_script_sends_no_mail_witness:
  "runScript part_000
     (\<lambda>cs. [\<lparr>recipient = ''seu email'', subject = ''Alerta'', body = [],
               htmlBody = ''a<br>''\<rparr>])
     [\<lparr>getName = ''a'', getImpressions = 0, isEnabled = True\<rparr>] = []"
  using alert_script_sends_no_mail
    [of "\<lambda>cs. [\<lparr>recipient = ''seu email'', subject = ''Alerta'', body = [],
                  htmlBody = ''a<br>''\<rparr>]"
        "[\<lparr>getName = ''a'', getImpressions = 0, isEnabled = True\<rparr>]"]
  by simp

section \<open>Properties of the scoring\<close>

lemmas parse_defs = parseFloat_def string_to_number_def trim_def read_decimal_def
  read_unsigned_def read_exponent_def is_digit_def is_space_def nat_of_digits_def
  digit_val_def Let_def

lemma normalize_High_Num:
  assumes "direction d = ''High''" "to_number x = Num v"
  shows "normalize d x = JNumber (Num (if max_d d \<le> v then 1 else if v \<le> min_d d then 0
            else (v - min_d d) / (max_d d - min_d d)))"
proof -
  have "max_d d - min_d d \<noteq> 0" if "\<not> max_d d \<le> v" "\<not> v \<le> min_d d"
    using that by simp
  then show ?thesis
    using assms by (simp add: normalize_def js_ge_def js_sub_def)
qed

text \<open>
  Claim C6. For a signal definition with direction \<open>High\<close> and \<open>min < max\<close>, and every
  value that is a number (a number, or a string that reads as one): \<open>normalize\<close> returns
  the clamped linear ramp; the result lies between 0 and 1, is 1 at or above \<open>max\<close>, 0 at
  or below \<open>min\<close>, \<open>(value - min) / (max - min)\<close> strictly between, and does not
  decrease when the value grows. The infinities go to 1 and 0.
\<close>

theorem normalize_High_clamped_ramp:
  assumes "direction d = ''High''" and "min_d d < max_d d"
    and "to_number x = Num v" and "to_number y = Num w"
  shows "\<exists>r s. normalize d x = JNumber (Num r) \<and> normalize d y = JNumber (Num s)
     \<and> r = clampedRamp (min_d d) (max_d d) v
     \<and> 0 \<le> r \<and> r \<le> 1
     \<and> (max_d d \<le> v \<longrightarrow> r = 1)
     \<and> (v \<le> min_d d \<longrightarrow> r = 0)
     \<and> (min_d d < v \<and> v < max_d d \<longrightarrow> r = (v - min_d d) / (max_d d - min_d d))
     \<and> (v \<le> w \<longrightarrow> r \<le> s)
     \<and> (to_number z = PosInfinity \<longrightarrow> normalize d z = JNumber (Num 1))
     \<and> (to_number z = NegInfinity \<longrightarrow> normalize d z = JNumber (Num 0))"
proof -
  let ?lo = "min_d d" and ?hi = "max_d d"
  define f where "f u = (if ?hi \<le> u then 1 else if u \<le> ?lo then 0 else (u - ?lo) / (?hi - ?lo))"
    for u
  have nx: "normalize d x = JNumber (Num (f v))" and ny: "normalize d y = JNumber (Num (f w))"
    using normalize_High_Num [OF assms(1)] assms(3,4) by (simp_all add: f_def)
  have pos: "0 < ?hi - ?lo" using assms(2) by simp
  have clamp: "f u = clampedRamp ?lo ?hi u" for u
    using pos by (auto simp: f_def clampedRamp_def max_def min_def field_simps)
  have bounds: "0 \<le> f u \<and> f u \<le> 1" for u
    unfolding clamp clampedRamp_def by simp
  have mono: "f v \<le> f w" if "v \<le> w"
    unfolding clamp clampedRamp_def using that pos
    by (intro max.mono min.mono divide_right_mono) simp_all
  have inf: "(to_number z = PosInfinity \<longrightarrow> normalize d z = JNumber (Num 1))
     \<and> (to_number z = NegInfinity \<longrightarrow> normalize d z = JNumber (Num 0))"
    using assms(1) by (simp add: normalize_def js_ge_def)
  have ends: "(?hi \<le> v \<longrightarrow> f v = 1) \<and> (v \<le> ?lo \<longrightarrow> f v = 0)
     \<and> (?lo < v \<and> v < ?hi \<longrightarrow> f v = (v - ?lo) / (?hi - ?lo))"
    using assms(2) by (auto simp: f_def)
  show ?thesis
    using nx ny clamp bounds mono inf ends by (intro exI [of _ "f v"] exI [of _ "f w"]) simp
qed

theorem normalize_High_clamped_ramp_witness:
  "direction ctr = ''High'' \<and> min_d ctr < max_d ctr
   \<and> to_number (JString ''0.05'') = Num 0.05
   \<and> normalize ctr (JString ''0.05'') = JNumber (Num (4 / 9))"
proof -
  have h1: "direction ctr = ''High''" and h2: "min_d ctr < max_d ctr"
    by (simp_all add: ctr_def)
  have n1: "to_number (JString ''0.05'') = Num 0.05"
    by (simp add: parse_defs)
  from normalize_High_clamped_ramp [OF h1 h2 n1 n1, of "JNumber PosInfinity"]
  have "normalize ctr (JString ''0.05'') = JNumber (Num (4 / 9))"
    by (auto simp: ctr_def)
  then show ?thesis
    using h1 h2 n1 by simp
qed

lemma processSignalsLoop_append:
  "processSignalsLoop (ds @ es) raw sigs s =
     (case processSignalsLoop ds raw sigs s of (sigs1, s1) \<Rightarrow> processSignalsLoop es raw sigs1 s1)"
  by (induction ds arbitrary: sigs s) (simp_all add: Let_def)

lemma sumWeightsLoop_append:
  "sumWeightsLoop (ds @ es) w = sumWeightsLoop es (sumWeightsLoop ds w)"
  by (induction ds w rule: sumWeightsLoop.induct) simp_all

lemma sumWeightsLoop_acc: "sumWeightsLoop ds w = w + sumWeightsLoop ds 0"
proof (induction ds arbitrary: w)
  case Nil
  then show ?case by simp
next
  case (Cons d ds)
  show ?case
    using Cons.IH [of "w + weight d"] Cons.IH [of "weight d"] Cons.IH [of w] by simp
qed

text \<open>
  Claim C1, as the code has it. For an included signal definition of type \<open>Number\<close> with
  direction \<open>None\<close>, \<open>normalize\<close> returns the raw value unchanged; the signal is scored
  all the same: wherever it stands in the catalog, the loop of \<open>processSignals\<close> adds the
  raw value (as a number) times the weight to the running sum, and the weight is part of
  the sum of weights.
\<close>

theorem direction_None_is_scored:
  assumes "includeInReport d = ''Yes''" and "type_d d = ''Number''" and "direction d = ''None''"
  shows "normalize d v = v
    \<and> processSignalsLoop (ds @ d # es) raw sigs s =
        (case processSignalsLoop ds raw sigs s of
           (sigs1, s1) \<Rightarrow>
             processSignalsLoop es raw
               (sigs1(name d \<mapsto> \<lparr>definition_e = d, value_e = property raw (name d),
                      displayValue = property raw (name d),
                      normalizedValue = Some (property raw (name d)),
                      signalScore = Some (js_mul (to_number (property raw (name d)))
                                            (Num (weight d)))\<rparr>))
               (js_add s1 (js_mul (to_number (property raw (name d))) (Num (weight d)))))
    \<and> calculateSumWeights (ds @ d # es) = calculateSumWeights (ds @ es) + weight d"
proof -
  have n: "normalize d u = u" for u
    using assms(3) by (simp add: normalize_def)
  have w: "calculateSumWeights (ds @ d # es) = calculateSumWeights (ds @ es) + weight d"
    using assms(1,2) sumWeightsLoop_acc [of es "sumWeightsLoop ds 0 + weight d"]
      sumWeightsLoop_acc [of es "sumWeightsLoop ds 0"]
    by (simp add: calculateSumWeights_def sumWeightsLoop_append)
  show ?thesis
    using assms(1,2) n w by (simp add: processSignalsLoop_append Let_def split: prod.splits)
qed

theorem direction_None_is_scored_witness:
  "includeInReport clicks = ''Yes'' \<and> type_d clicks = ''Number'' \<and> direction clicks = ''None''
   \<and> normalize clicks (JString ''3'') = JString ''3''
   \<and> snd (processSignalsLoop [clicks] [''Clicks'' \<mapsto> JString ''3''] Map.empty (Num 0)) = Num 6
   \<and> calculateSumWeights [clicks] = 2"
proof -
  have h: "includeInReport clicks = ''Yes''" "type_d clicks = ''Number''"
    "direction clicks = ''None''"
    by (simp_all add: clicks_def)
  have three: "string_to_number ''3'' = Num 3"
    by (simp add: parse_defs)
  have p: "property [''Clicks'' \<mapsto> JString ''3''] (name clicks) = JString ''3''"
    by (simp add: property_def clicks_def)
  have w: "weight clicks = 2"
    by (simp add: clicks_def)
  from direction_None_is_scored [OF h, of "JString ''3''" "[]" "[]"
      "[''Clicks'' \<mapsto> JString ''3'']" Map.empty "Num 0"]
  show ?thesis
    using h by (simp add: p three w calculateSumWeights_def)
qed

text \<open>
  The claim as stated fails: with the signal of direction \<open>None\<close> in the catalog (raw
  value 3, weight 2) the score sum of the account is 8 and the sum of weights 4; without
  it they are 2 and 2.
\<close>

theorem direction_None_counterexample:
  "scoreSum (processSignals [ctr, clicks] (calculateSumWeights [ctr, clicks])
      \<lparr>account = ''1'', rawSignals = [''Ctr'' \<mapsto> JNumber (Num 1), ''Clicks'' \<mapsto> JString ''3''],
       signals = Map.empty, scoreSum = Num 0, scoreWeights = 0, score = Num 0\<rparr>) = Num 8
   \<and> scoreSum (processSignals [ctr] (calculateSumWeights [ctr])
      \<lparr>account = ''1'', rawSignals = [''Ctr'' \<mapsto> JNumber (Num 1), ''Clicks'' \<mapsto> JString ''3''],
       signals = Map.empty, scoreSum = Num 0, scoreWeights = 0, score = Num 0\<rparr>) = Num 2
   \<and> calculateSumWeights [ctr, clicks] = 4
   \<and> calculateSumWeights [ctr] = 2"
  by (simp add: processSignals_def calculateSumWeights_def clicks_def ctr_def normalize_def
      js_ge_def property_def parse_defs)

text \<open>
  Claim C7. A raw value with a percent sign is replaced by its number divided by 100
  before it is scored. For the example signal (direction \<open>High\<close>, \<open>min = 0.01\<close>,
  \<open>max = 0.10\<close>, weight 2) and the raw value \<open>5%\<close>: the stored raw signal is 0.05,
  the normalized value is \<open>4/9\<close> and the score of the signal is \<open>8/9\<close>.
\<close>

theorem percent_value_divided_by_100:
  "(CHR ''%'' \<in> set v \<longrightarrow> percentToFraction v = JNumber (js_div (parseFloat v) (Num 100)))
   \<and> percentToFraction ''5%'' = JNumber (Num 0.05)
   \<and> (case processAccountSignals settings0 [ctr] (calculateSumWeights [ctr]) [[''Ctr'' \<mapsto> ''5%'']] ''123-456-7890'' [] of
         Inr [info] \<Rightarrow>
           rawSignals info ''Ctr'' = Some (JNumber (Num 0.05))
           \<and> map_option normalizedValue (signals info ''Ctr'') = Some (Some (JNumber (Num (4 / 9))))
           \<and> map_option signalScore (signals info ''Ctr'') = Some (Some (Num (8 / 9)))
           \<and> scoreSum info = Num (8 / 9)
       | _ \<Rightarrow> False)"
proof -
  have a: "percentToFraction ''5%'' = JNumber (Num (1 / 20))"
    by (simp add: percentToFraction_def parse_defs)
  have raw: "calculateRawSignals settings0 [ctr] [[''Ctr'' \<mapsto> ''5%'']]
      = Inr [''Ctr'' \<mapsto> JNumber (Num (1 / 20))]"
    by (simp add: calculateRawSignals_def settings0_def ctr_def a)
  have n: "normalize ctr (JNumber (Num (1 / 20))) = JNumber (Num (4 / 9))"
    by (simp add: normalize_def ctr_def js_ge_def js_sub_def)
  have nm: "name ctr = ''Ctr''" "includeInReport ctr = ''Yes''" "type_d ctr = ''Number''"
    "weight ctr = 2"
    by (simp_all add: ctr_def)
  have b: "processSignalsLoop [ctr] [''Ctr'' \<mapsto> JNumber (Num (1 / 20))] Map.empty (Num 0)
      = ([''Ctr'' \<mapsto> \<lparr>definition_e = ctr, value_e = JNumber (Num (1 / 20)),
            displayValue = JNumber (Num (1 / 20)),
            normalizedValue = Some (JNumber (Num (4 / 9))), signalScore = Some (Num (8 / 9))\<rparr>],
          Num (8 / 9))"
    by (simp add: nm n property_def Let_def)
  have c: "processAccountSignals settings0 [ctr] (calculateSumWeights [ctr])
       [[''Ctr'' \<mapsto> ''5%'']] ''123-456-7890'' []
     = Inr [\<lparr>account = ''123-456-7890'', rawSignals = [''Ctr'' \<mapsto> JNumber (Num (1 / 20))],
         signals = [''Ctr'' \<mapsto> \<lparr>definition_e = ctr, value_e = JNumber (Num (1 / 20)),
            displayValue = JNumber (Num (1 / 20)),
            normalizedValue = Some (JNumber (Num (4 / 9))), signalScore = Some (Num (8 / 9))\<rparr>],
         scoreSum = Num (8 / 9), scoreWeights = calculateSumWeights [ctr],
         score = js_div (Num (8 / 9)) (Num (calculateSumWeights [ctr]))\<rparr>]"
    by (simp add: processAccountSignals_def processSignals_def raw b del: processSignalsLoop.simps)
  have g: "CHR ''%'' \<in> set v \<longrightarrow> percentToFraction v = JNumber (js_div (parseFloat v) (Num 100))"
    by (simp add: percentToFraction_def)
  show ?thesis
    unfolding c using g a by simp
qed

theorem percent_value_divided_by_100_witness:
  "CHR ''%'' \<in> set ''12.5 %'' \<and> percentToFraction ''12.5 %'' = JNumber (Num 0.125)"
proof -
  have h: "CHR ''%'' \<in> set ''12.5 %''" by simp
  have p: "parseFloat ''12.5 %'' = Num 12.5" by (simp add: parse_defs)
  from percent_value_divided_by_100 [of "''12.5 %''"] h
  have "percentToFraction ''12.5 %'' = JNumber (js_div (parseFloat ''12.5 %'') (Num 100))"
    by blast
  then show ?thesis using h p by simp
qed

section \<open>Properties of the settings\<close>

lemma readSettingsLoop_eq:
  "readSettingsLoop rows acc =
     acc @ map (\<lambda>r. \<lparr>key = keyCell r, type_s = typeCell r, value_s = rowValue r\<rparr>)
             (filter (\<lambda>r. truthy (JString (keyCell r)) \<and> truthy (rowValue r)) rows)"
  by (induction rows arbitrary: acc) (simp_all add: Let_def rowValue_def)

lemma getSetting_find:
  "getSetting st k m =
     (case find (\<lambda>x. key x = k \<and> truthy (value_s x)) st of
        Some x \<Rightarrow> Inr (value_s x)
      | None \<Rightarrow> if m then Inl (notSet k) else Inr JNull)"
  by (induction st) (simp_all add: notSet_def)

lemma getSetting_absent:
  assumes "\<forall>x \<in> set st. key x = k \<longrightarrow> \<not> truthy (value_s x)"
  shows "getSetting st k m = (if m then Inl (notSet k) else Inr JNull)"
proof -
  have "find (\<lambda>x. key x = k \<and> truthy (value_s x)) st = None"
    using assms by (auto simp: find_None_iff)
  then show ?thesis by (simp add: getSetting_find)
qed

lemma getSetting_optional: "\<exists>v. getSetting st k False = Inr v"
  by (induction st) simp_all

lemma hasUnfinishedRun_init [simp]: "hasUnfinishedRun (init s) = hasUnfinishedRun s"
  by (simp add: init_def hasUnfinishedRun_def split: prod.splits)

text \<open>
  Claim C9. A row of the Settings tab whose value is falsy (0, the empty string, false)
  is dropped by \<open>readSettings\<close> and is indistinguishable from an absent row; the value
  of a row is its value cell, and the background of the cell for a setting of type
  \<open>Color\<close>. \<open>getSetting\<close> returns the value of the first setting with the key and a
  truthy value; without one it returns \<open>null\<close> for an optional setting and throws for a
  mandatory one. So a mandatory setting set to 0 throws, and \<open>main\<close> aborts on the
  report frequency when no run is open.
\<close>

theorem falsy_setting_is_absent:
  "readSettings rows =
     map (\<lambda>r. \<lparr>key = keyCell r, type_s = typeCell r, value_s = rowValue r\<rparr>)
       (filter (\<lambda>r. truthy (JString (keyCell r)) \<and> truthy (rowValue r)) rows)
   \<and> (\<not> truthy (rowValue r) \<longrightarrow> readSettings (rows1 @ r # rows2) = readSettings (rows1 @ rows2))
   \<and> getSetting st k mandatory =
       (case find (\<lambda>x. key x = k \<and> truthy (value_s x)) st of
          Some x \<Rightarrow> Inr (value_s x)
        | None \<Rightarrow> if mandatory then Inl (notSet k) else Inr JNull)
   \<and> ((\<forall>r \<in> set rows. keyCell r = k \<longrightarrow> \<not> truthy (rowValue r)) \<longrightarrow>
        getSetting (readSettings rows) k True = Inl (notSet k)
        \<and> getSetting (readSettings rows) k False = Inr JNull)
   \<and> (\<not> hasUnfinishedRun s \<and> settings s = []
        \<and> (\<forall>r \<in> set (settingsTab s). keyCell r = ''ReportFrequency'' \<longrightarrow> \<not> truthy (rowValue r)) \<longrightarrow>
        main e s = Throw (notSet ''ReportFrequency'') (init s))"
proof -
  have a: "readSettings rows =
     map (\<lambda>r. \<lparr>key = keyCell r, type_s = typeCell r, value_s = rowValue r\<rparr>)
       (filter (\<lambda>r. truthy (JString (keyCell r)) \<and> truthy (rowValue r)) rows)" for rows
    by (simp add: readSettings_def readSettingsLoop_eq)
  have b: "readSettings (rows1 @ r # rows2) = readSettings (rows1 @ rows2)"
    if "\<not> truthy (rowValue r)"
    using that by (simp add: a)
  have c: "getSetting (readSettings rows) k m = (if m then Inl (notSet k) else Inr JNull)"
    if "\<forall>r \<in> set rows. keyCell r = k \<longrightarrow> \<not> truthy (rowValue r)" for rows k m
    by (rule getSetting_absent) (use that in \<open>auto simp: a\<close>)
  have st: "settings (init s) = readSettings (settingsTab s)" if "settings s = []"
    using that by (simp add: init_def readSettings_def split: prod.splits)
  have d: "main e s = Throw (notSet ''ReportFrequency'') (init s)"
    if "\<not> hasUnfinishedRun s" "settings s = []"
      "\<forall>r \<in> set (settingsTab s). keyCell r = ''ReportFrequency'' \<longrightarrow> \<not> truthy (rowValue r)"
    using that by (simp add: main_def Let_def st c)
  show ?thesis
    using a b c d by (simp add: getSetting_find)
qed

theorem falsy_setting_is_absent_witness:
  "getSetting (readSettings (settingsRows (CNumber 0) (CNumber 2))) ''ReportFrequency'' True
     = Inl (notSet ''ReportFrequency'')
   \<and> getSetting (readSettings (settingsRows (CNumber 0) (CNumber 2))) ''ReportFrequency'' False
     = Inr JNull
   \<and> getSetting (readSettings (settingsRows (CNumber 0) (CNumber 2))) ''NumAccountsProcess'' True
     = Inr (JNumber (Num 2))
   \<and> main env0 (moduleInit ((openRun [ctr] (settingsRows (CNumber 0) (CNumber 2)) threeAccounts)
                               \<lparr>historyTab := []\<rparr>))
     = Throw (notSet ''ReportFrequency'')
         (init (moduleInit ((openRun [ctr] (settingsRows (CNumber 0) (CNumber 2)) threeAccounts)
                               \<lparr>historyTab := []\<rparr>)))"
  using falsy_setting_is_absent
    [where rows = "settingsRows (CNumber 0) (CNumber 2)" and k = "''ReportFrequency''"
       and s = "moduleInit ((openRun [ctr] (settingsRows (CNumber 0) (CNumber 2)) threeAccounts)
                               \<lparr>historyTab := []\<rparr>)"
       and e = env0 and r = "hd (settingsRows (CNumber 0) (CNumber 2))"
       and st = "readSettings (settingsRows (CNumber 0) (CNumber 2))"
       and mandatory = True and ?rows1.0 = "[]" and ?rows2.0 = "[]"]
  by (simp add: settingsRows_def rowValue_def moduleInit_def openRun_def hasUnfinishedRun_def
      readSettings_def)

section \<open>Properties of the run state\<close>

lemma cell_empty_iff: "loose_eq (js_of_cell c) (JString []) \<longleftrightarrow> \<not> truthy (js_of_cell c)"
  by (cases c) (auto simp: num_eq_def string_to_number_def trim_def)

lemma loose_unprocessed:
  "loose_eq (js_of_cell (processedCell r)) (JString []) \<longleftrightarrow> unprocessed r"
  by (simp add: unprocessed_def cell_empty_iff)

lemma getCurrentRunSheet_Throw: "getCurrentRunSheet s = Throw x s1 \<Longrightarrow> s1 = s"
  by (auto simp: getCurrentRunSheet_def split: option.splits if_splits)

lemma getCurrentRunSheet_Return:
  "getCurrentRunSheet s = Return u s1 \<Longrightarrow> s1 = s\<lparr>currentRunSheet := Some u\<rparr>"
  by (auto simp: getCurrentRunSheet_def split: option.splits if_splits)

lemma getCurrentRunSheet_cached:
  "getCurrentRunSheet (s\<lparr>currentRunSheet := Some u\<rparr>) = Return u (s\<lparr>currentRunSheet := Some u\<rparr>)"
  by (simp add: getCurrentRunSheet_def)

lemma markLoop_eq:
  "markLoop t c rows =
     (map (\<lambda>r. if c = cid r then r\<lparr>processedCell := CNumber (real_of_int t)\<rparr> else r) rows,
      length (filter (\<lambda>r. c = cid r) rows))"
  by (induction rows) simp_all

lemma markedRows_Nil [simp]: "markedRows t [] rows = rows"
  by (simp add: markedRows_def)

lemma markedRows_snoc:
  "map (\<lambda>r. if c = cid r then r\<lparr>processedCell := CNumber (real_of_int t)\<rparr> else r)
     (markedRows t cs rows) = markedRows t (cs @ [c]) rows"
  by (auto simp: markedRows_def)

lemma markedRows_cons:
  "markedRows t cs (map (\<lambda>r. if c = cid r then r\<lparr>processedCell := CNumber (real_of_int t)\<rparr> else r) rows)
     = markedRows t (c # cs) rows"
  by (auto simp: markedRows_def)

lemma processAccount_cases:
  assumes "accountsTab s \<noteq> []"
  shows "(\<exists>x. processAccount e a s = Throw x s)
     \<or> (\<exists>info k. account info = getCustomerId a
          \<and> processAccount e a s =
              Return () (s\<lparr>accountInfos := accountInfos s @ [info],
                          accountsTab := map (\<lambda>r. if getCustomerId a = cid r
                              then r\<lparr>processedCell := CNumber (real_of_int (getTimestamp e))\<rparr> else r)
                              (accountsTab s),
                          processedAccounts := k\<rparr>))"
proof (cases "processAccountSignals (settings s) (signalDefinitions s) (sumWeights s)
             (accountReport e (getCustomerId a)) (getCustomerId a) (accountInfos s)")
  case (Inl x)
  then show ?thesis by (simp add: processAccount_def)
next
  case (Inr infos)
  then obtain info where i: "infos = accountInfos s @ [info]" "account info = getCustomerId a"
    by (auto simp: processAccountSignals_def processSignals_def split: sum.splits prod.splits)
  show ?thesis
    using assms Inr i
    by (auto simp: processAccount_def markAccountAsProcessed_def markLoop_eq)
qed

lemma batchLoop_char:
  assumes "accountsTab s \<noteq> []"
  shows "\<exists>done rest infos k. it = done @ rest \<and> map account infos = map getCustomerId done
     \<and> state_of (batchLoop e it p s) =
         s\<lparr>accountInfos := accountInfos s @ infos,
           accountsTab := markedRows (getTimestamp e) (map getCustomerId done) (accountsTab s),
           processedAccounts := k\<rparr>
     \<and> (\<forall>n s'. batchLoop e it p s = Return n s' \<longrightarrow>
           p \<le> n \<and> length done \<le> n - p \<and> (p < n \<longrightarrow> it \<noteq> []))"
  using assms
proof (induction it arbitrary: p s)
  case Nil
  show ?case
    by (rule exI [of _ "[]"], rule exI [of _ "[]"], rule exI [of _ "[]"],
        rule exI [of _ "processedAccounts s"]) simp
next
  case (Cons a it)
  let ?stop = "\<exists>done rest infos k. a # it = done @ rest
     \<and> map account infos = map getCustomerId done
     \<and> state_of (batchLoop e (a # it) p s) =
         s\<lparr>accountInfos := accountInfos s @ infos,
           accountsTab := markedRows (getTimestamp e) (map getCustomerId done) (accountsTab s),
           processedAccounts := k\<rparr>
     \<and> (\<forall>n s'. batchLoop e (a # it) p s = Return n s' \<longrightarrow>
           p \<le> n \<and> length done \<le> n - p \<and> (p < n \<longrightarrow> a # it \<noteq> []))"
  have stop: ?stop
    if "state_of (batchLoop e (a # it) p s) = s"
      "\<forall>n s'. batchLoop e (a # it) p s = Return n s' \<longrightarrow> p \<le> n"
    using that
    by (intro exI [of _ "[]"] exI [of _ "a # it"] exI [of _ "processedAccounts s"]) simp
  show ?case
  proof (cases "getSetting (settings s) ''NumAccountsProcess'' True")
    case (Inl x)
    then show ?thesis by (intro stop) simp_all
  next
    case (Inr n)
    show ?thesis
    proof (cases "js_lt (Num (real p)) (to_number n)")
      case False
      with Inr show ?thesis by (intro stop) simp_all
    next
      case True
      from processAccount_cases [OF Cons.prems, of e a]
      show ?thesis
      proof (elim disjE exE conjE)
        fix x assume "processAccount e a s = Throw x s"
        with Inr True show ?thesis by (intro stop) simp_all
      next
        fix info k
        let ?s1 = "s\<lparr>accountInfos := accountInfos s @ [info],
              accountsTab := map (\<lambda>r. if getCustomerId a = cid r
                  then r\<lparr>processedCell := CNumber (real_of_int (getTimestamp e))\<rparr> else r)
                  (accountsTab s),
              processedAccounts := k\<rparr>"
        assume info: "account info = getCustomerId a"
          and ret: "processAccount e a s = Return () ?s1"
        have ne: "accountsTab ?s1 \<noteq> []" using Cons.prems by simp
        from Cons.IH [OF ne, of "p + 1"]
        obtain dn rest infos k' where ih: "it = dn @ rest"
          "map account infos = map getCustomerId dn"
          "state_of (batchLoop e it (p + 1) ?s1) =
             ?s1\<lparr>accountInfos := accountInfos ?s1 @ infos,
               accountsTab := markedRows (getTimestamp e) (map getCustomerId dn) (accountsTab ?s1),
               processedAccounts := k'\<rparr>"
          "\<forall>n s'. batchLoop e it (p + 1) ?s1 = Return n s' \<longrightarrow>
             p + 1 \<le> n \<and> length dn \<le> n - (p + 1) \<and> (p + 1 < n \<longrightarrow> it \<noteq> [])"
          by blast
        have eq: "batchLoop e (a # it) p s = batchLoop e it (p + 1) ?s1"
          using Inr True ret by simp
        show ?thesis
          unfolding eq
          using ih info
          by (intro exI [of _ "a # dn"] exI [of _ rest] exI [of _ "info # infos"] exI [of _ k'])
            (auto simp: markedRows_cons)
      qed
    qed
  qed
qed

lemma unprocessedLoop_full:
  assumes "getSetting st ''NumAccountsProcess'' True = Inr n"
    and "js_ge (Num (real (length acc))) (to_number n)"
  shows "unprocessedLoop st rows acc = Inr acc"
  using assms by (induction rows) simp_all

lemma unprocessedLoop_take:
  assumes "getSetting st ''NumAccountsProcess'' True = Inr n"
  shows "\<exists>m. unprocessedLoop st rows acc = Inr (acc @ take m (map cid (filter unprocessed rows)))"
proof (induction rows arbitrary: acc)
  case Nil
  show ?case by simp
next
  case (Cons r rows)
  show ?case
  proof (cases "unprocessed r")
    case False
    with Cons.IH [of acc] show ?thesis
      by (simp add: loose_unprocessed)
  next
    case True
    show ?thesis
    proof (cases "js_ge (Num (real (length acc))) (to_number n)")
      case full: True
      have "unprocessedLoop st (r # rows) acc = Inr acc"
        by (rule unprocessedLoop_full [OF assms full])
      then show ?thesis by (intro exI [of _ 0]) simp
    next
      case False
      from Cons.IH [of "acc @ [cid r]"] obtain m where
        "unprocessedLoop st rows (acc @ [cid r])
           = Inr ((acc @ [cid r]) @ take m (map cid (filter unprocessed rows)))" ..
      with True False assms show ?thesis
        by (intro exI [of _ "Suc m"]) (simp add: loose_unprocessed)
    qed
  qed
qed

lemma unprocessedLoop_none:
  assumes "\<forall>r \<in> set rows. \<not> unprocessed r"
  shows "unprocessedLoop st rows acc = Inr acc"
  using assms by (induction rows) (simp_all add: loose_unprocessed)

lemma unprocessedLoop_Inl:
  assumes "getSetting st ''NumAccountsProcess'' True = Inl x" and "\<exists>r \<in> set rows. unprocessed r"
  shows "unprocessedLoop st rows acc = Inl x"
  using assms by (induction rows) (auto simp: loose_unprocessed)

lemma getUnprocessedAccounts_take:
  assumes "getUnprocessedAccounts s = Inr accounts"
  shows "\<exists>m. accounts = take m (map cid (filter unprocessed (accountsTab s)))"
proof (cases "getSetting (settings s) ''NumAccountsProcess'' True")
  case (Inr n)
  from unprocessedLoop_take [OF Inr, of "accountsTab s" "[]"] assms show ?thesis
    by (auto simp: getUnprocessedAccounts_def split: if_splits)
next
  case (Inl x)
  have "\<forall>r \<in> set (accountsTab s). \<not> unprocessed r"
  proof (rule ccontr)
    assume "\<not> ?thesis"
    then have "unprocessedLoop (settings s) (accountsTab s) [] = Inl x"
      by (intro unprocessedLoop_Inl [OF Inl]) blast
    with assms show False by (simp add: getUnprocessedAccounts_def split: if_splits)
  qed
  then have "filter unprocessed (accountsTab s) = []" "accounts = []"
    using assms unprocessedLoop_none [of "accountsTab s" "settings s" "[]"]
    by (auto simp: getUnprocessedAccounts_def filter_empty_conv split: if_splits)
  then show ?thesis by simp
qed

lemma allProcessedLoop_iff: "allProcessedLoop rows \<longleftrightarrow> (\<forall>r \<in> set rows. \<not> unprocessed r)"
  by (induction rows) (simp_all add: unprocessed_def)

lemma mset_insertByScore [simp]: "mset (insertByScore a bs) = add_mset a (mset bs)"
  by (induction bs) auto

lemma mset_insertion_sort:
  "mset (foldl (\<lambda>arranged a. insertByScore a arranged) acc xs) = mset acc + mset xs"
  by (induction xs arbitrary: acc) auto

lemma rearrangement_mset:
  assumes "rearrangement p n"
  shows "mset p = mset [0..<n]"
proof -
  from assms have len: "length p = n" and dist: "distinct p" and sub: "set p \<subseteq> {0..<n}"
    by (auto simp: rearrangement_def list_all_iff)
  from dist len have "card (set p) = card {0..<n}"
    by (simp add: distinct_card)
  with sub have "set p = {0..<n}"
    by (intro card_subset_eq) simp_all
  moreover have "mset p = mset_set (set p)"
    using dist by (simp add: mset_set_set)
  ultimately show ?thesis by (simp add: mset_upt)
qed

lemma mset_arranged:
  assumes "rearrangement p (length xs)"
  shows "mset (map (\<lambda>i. xs ! i) p) = mset xs"
proof -
  have "mset (map (\<lambda>i. xs ! i) p) = image_mset (\<lambda>i. xs ! i) (mset p)" by simp
  also have "\<dots> = image_mset (\<lambda>i. xs ! i) (mset [0..<length xs])"
    by (simp only: rearrangement_mset [OF assms])
  also have "\<dots> = mset (map (\<lambda>i. xs ! i) [0..<length xs])" by simp
  also have "\<dots> = mset xs" by (simp only: map_nth)
  finally show ?thesis .
qed

lemma mset_sortByScore: "mset (sortByScore order infos) = mset infos"
proof (cases "rearrangement (order (map score infos)) (length infos)")
  case True
  from mset_arranged [OF True] show ?thesis
    by (simp add: sortByScore_def Let_def mset_insertion_sort)
next
  case False
  then show ?thesis
    by (simp add: sortByScore_def Let_def mset_insertion_sort)
qed

lemma sortByScore_Nil: "sortByScore order [] = []"
  by (simp add: sortByScore_def Let_def rearrangement_def)

lemma length_sortByScore: "length (sortByScore order infos) = length infos"
  using mset_sortByScore [of order infos] by (rule mset_eq_length)

lemma set_sortByScore: "set (sortByScore order infos) = set infos"
  using mset_sortByScore [of order infos] by (rule mset_eq_setD)

lemma same_runSheets: "\<exists>rs. s = s\<lparr>runSheets := rs\<rparr>"
  by (rule exI [of _ "runSheets s"]) simp

lemma writeHeaderRow_cached:
  assumes "currentRunSheet s = Some u"
  shows "\<exists>rs. state_of (writeHeaderRow s) = s\<lparr>runSheets := rs\<rparr>"
proof (cases "runSheets s u")
  case None
  with assms show ?thesis
    by (simp add: writeHeaderRow_def getCurrentRunSheet_def same_runSheets)
next
  case (Some r)
  with assms show ?thesis
    by (simp add: writeHeaderRow_def getCurrentRunSheet_def) blast
qed

lemma writeDataRow_cached:
  assumes "currentRunSheet s = Some u"
  shows "\<exists>rs. state_of (writeDataRow info s) = s\<lparr>runSheets := rs\<rparr>"
proof (cases "runSheets s u")
  case None
  with assms show ?thesis
    by (simp add: writeDataRow_def getCurrentRunSheet_def same_runSheets)
next
  case (Some r)
  show ?thesis
  proof (cases "dataLoop (signalDefinitions s) info [JString []]")
    case (Inl x)
    with Some assms show ?thesis
      by (simp add: writeDataRow_def getCurrentRunSheet_def same_runSheets)
  next
    case (Inr row)
    with Some assms show ?thesis
      by (simp add: writeDataRow_def getCurrentRunSheet_def) blast
  qed
qed

lemma writeDataRows_cached:
  assumes "currentRunSheet s = Some u"
  shows "\<exists>rs. state_of (writeDataRows infos s) = s\<lparr>runSheets := rs\<rparr>"
  using assms
proof (induction infos arbitrary: s)
  case Nil
  show ?case by (simp add: same_runSheets)
next
  case (Cons info infos)
  from writeDataRow_cached [OF Cons.prems, of info] obtain rs
    where rs: "state_of (writeDataRow info s) = s\<lparr>runSheets := rs\<rparr>" ..
  show ?case
  proof (cases "writeDataRow info s")
    case (Throw x s1)
    with rs show ?thesis by auto
  next
    case (Return v s1)
    with rs have s1: "s1 = s\<lparr>runSheets := rs\<rparr>" by simp
    then have "currentRunSheet s1 = Some u" using Cons.prems by simp
    from Cons.IH [OF this] obtain rs' where "state_of (writeDataRows infos s1) = s1\<lparr>runSheets := rs'\<rparr>" ..
    with Return s1 show ?thesis by auto
  qed
qed

lemma writeAccountData_cached:
  assumes "currentRunSheet s = Some u"
  shows "\<exists>rs. state_of (writeAccountDataToSpreadsheet e s) =
      s\<lparr>accountInfos := sortByScore (sortOrder e) (accountInfos s), runSheets := rs\<rparr>"
proof -
  let ?g = "getAccountInfos e s"
  have c: "currentRunSheet ?g = Some u" using assms by (simp add: getAccountInfos_def)
  from writeHeaderRow_cached [OF c] obtain rs where rs: "state_of (writeHeaderRow ?g) = ?g\<lparr>runSheets := rs\<rparr>" ..
  show ?thesis
  proof (cases "writeHeaderRow ?g")
    case (Throw x s1)
    with rs show ?thesis
      by (auto simp: writeAccountDataToSpreadsheet_def getAccountInfos_def)
  next
    case (Return v s1)
    with rs have s1: "s1 = ?g\<lparr>runSheets := rs\<rparr>" by simp
    then have "currentRunSheet s1 = Some u" using c by simp
    from writeDataRows_cached [OF this, of "accountInfos s1"] obtain rs'
      where "state_of (writeDataRows (accountInfos s1) s1) = s1\<lparr>runSheets := rs'\<rparr>" ..
    with Return s1 show ?thesis
      by (auto simp: writeAccountDataToSpreadsheet_def getAccountInfos_def)
  qed
qed

lemma sendEmail_cached:
  assumes "currentRunSheet s = Some u"
  shows "sendEmail s = Return () (s\<lparr>outbox := outbox s @ readyMails (settings s) u\<rparr>)"
proof -
  obtain r where r: "getSetting (settings s) ''RecipientEmail'' False = Inr r"
    using getSetting_optional by blast
  show ?thesis
    using assms r by (simp add: sendEmail_def readyMails_def getCurrentRunSheet_def)
qed

lemma continue_char:
  assumes ai: "accountInfos s = []" and hist: "historyTab s \<noteq> []" and cache: "currentRunSheet s = None"
  shows "\<exists>done infos c rs k.
       (\<forall>a \<in> set done. a \<in> set (mccAccounts e)
           \<and> (\<exists>r \<in> set (accountsTab s). cid r = getCustomerId a \<and> unprocessed r))
     \<and> set (map account infos) = set (map getCustomerId done) \<and> length infos = length done
     \<and> ((\<exists>x. continueUnfinishedReport e s =
            Throw x (s\<lparr>currentRunSheet := c, accountInfos := infos,
                       accountsTab := markedRows (getTimestamp e) (map getCustomerId done) (accountsTab s),
                       processedAccounts := k, runSheets := rs\<rparr>))
        \<or> (\<exists>n. continueUnfinishedReport e s =
            Return n (s\<lparr>currentRunSheet := c, accountInfos := infos,
                       accountsTab := markedRows (getTimestamp e) (map getCustomerId done) (accountsTab s),
                       processedAccounts := k, runSheets := rs\<rparr>)
            \<and> \<not> (done \<noteq> [] \<and> (\<forall>r \<in> set (markedRows (getTimestamp e) (map getCustomerId done)
                                    (accountsTab s)). \<not> unprocessed r)))
        \<or> (\<exists>n. continueUnfinishedReport e s =
            Return n (s\<lparr>currentRunSheet := c, accountInfos := infos,
                       accountsTab := markedRows (getTimestamp e) (map getCustomerId done) (accountsTab s),
                       processedAccounts := k, runSheets := rs,
                       protectedTabs := protectedTabs s - protectedSheets,
                       historyTab := closedHistory e (historyTab s),
                       outbox := outbox s @ readyMails (settings s) (urlCell (last (historyTab s)))\<rparr>)
            \<and> done \<noteq> [] \<and> (\<forall>r \<in> set (markedRows (getTimestamp e) (map getCustomerId done)
                                    (accountsTab s)). \<not> unprocessed r)))"
    (is "\<exists>done infos c rs k. ?P done infos c rs k")
proof -
  let ?u = "urlCell (last (historyTab s))"
  let ?t = "getTimestamp e"
  show ?thesis
  proof (cases "runSheets s ?u")
    case None
    then have "continueUnfinishedReport e s = Throw OpenException s"
      using hist cache by (simp add: continueUnfinishedReport_def getCurrentRunSheet_def)
    then have "?P [] [] None (runSheets s) (processedAccounts s)"
      using ai cache by simp
    then show ?thesis by blast
  next
    case (Some r0)
    let ?s1 = "s\<lparr>currentRunSheet := Some ?u\<rparr>"
    have g: "getCurrentRunSheet s = Return ?u ?s1"
      using Some hist cache by (simp add: getCurrentRunSheet_def)
    have gu: "getUnprocessedAccounts ?s1 = getUnprocessedAccounts s"
      by (simp add: getUnprocessedAccounts_def)
    show ?thesis
    proof (cases "getUnprocessedAccounts s")
      case (Inl x)
      then have "continueUnfinishedReport e s = Throw x ?s1"
        using g gu by (simp add: continueUnfinishedReport_def getUnprocessedAccountIterator_def)
      then have "?P [] [] (Some ?u) (runSheets s) (processedAccounts s)"
        using ai by simp
      then show ?thesis by blast
    next
      case (Inr accounts)
      then have rows: "accountsTab s \<noteq> []"
        by (auto simp: getUnprocessedAccounts_def split: if_splits)
      from getUnprocessedAccounts_take [OF Inr] obtain m
        where m: "accounts = take m (map cid (filter unprocessed (accountsTab s)))" ..
      have acc: "\<exists>r \<in> set (accountsTab s). cid r = c \<and> unprocessed r" if "c \<in> set accounts" for c
      proof -
        from that m have "c \<in> set (map cid (filter unprocessed (accountsTab s)))"
          by (auto dest: in_set_takeD)
        then show ?thesis by auto
      qed
      let ?it = "filter (\<lambda>a. getCustomerId a \<in> set accounts) (mccAccounts e)"
      have itr: "getUnprocessedAccountIterator e ?s1 = Inr ?it"
        using Inr gu by (simp add: getUnprocessedAccountIterator_def)
      have rows1: "accountsTab ?s1 \<noteq> []" using rows by simp
      from batchLoop_char [OF rows1, of ?it e 0]
      obtain dn rest infos k where b: "?it = dn @ rest"
        "map account infos = map getCustomerId dn"
        "state_of (batchLoop e ?it 0 ?s1) =
           ?s1\<lparr>accountInfos := accountInfos ?s1 @ infos,
             accountsTab := markedRows ?t (map getCustomerId dn) (accountsTab ?s1),
             processedAccounts := k\<rparr>"
        "\<forall>n s'. batchLoop e ?it 0 ?s1 = Return n s' \<longrightarrow>
            0 \<le> n \<and> length dn \<le> n - 0 \<and> (0 < n \<longrightarrow> ?it \<noteq> [])"
        by blast
      let ?rows2 = "markedRows ?t (map getCustomerId dn) (accountsTab s)"
      let ?s2 = "s\<lparr>currentRunSheet := Some ?u, accountInfos := infos, accountsTab := ?rows2,
                   processedAccounts := k\<rparr>"
      have s2: "state_of (batchLoop e ?it 0 ?s1) = ?s2"
        using b(3) ai by simp
      have dn: "\<forall>a \<in> set dn. a \<in> set (mccAccounts e)
           \<and> (\<exists>r \<in> set (accountsTab s). cid r = getCustomerId a \<and> unprocessed r)"
      proof
        fix a assume "a \<in> set dn"
        then have "a \<in> set ?it" using b(1) by (metis UnCI set_append)
        then show "a \<in> set (mccAccounts e)
           \<and> (\<exists>r \<in> set (accountsTab s). cid r = getCustomerId a \<and> unprocessed r)"
          using acc by auto
      qed
      have len: "length infos = length dn"
        using b(2) by (metis length_map)
      have sets: "set (map account infos) = set (map getCustomerId dn)"
        using b(2) by simp
      show ?thesis
      proof (cases "batchLoop e ?it 0 ?s1")
        case (Throw x s2')
        with s2 have "continueUnfinishedReport e s = Throw x ?s2"
          using g itr by (simp add: continueUnfinishedReport_def)
        then have "?P dn infos (Some ?u) (runSheets s) k"
          using dn len sets by simp
        then show ?thesis by blast
      next
        case (Return p s2')
        with s2 have bl: "batchLoop e ?it 0 ?s1 = Return p ?s2" by simp
        from b(4) bl have p: "length dn \<le> p" "0 < p \<longrightarrow> ?it \<noteq> []" by auto
        have c2: "currentRunSheet ?s2 = Some ?u" by simp
        from writeAccountData_cached [OF c2, of e] obtain rs where
          w: "state_of (writeAccountDataToSpreadsheet e ?s2) =
               ?s2\<lparr>accountInfos := sortByScore (sortOrder e) (accountInfos ?s2),
                   runSheets := rs\<rparr>" ..
        let ?infos3 = "sortByScore (sortOrder e) infos"
        let ?s3 = "s\<lparr>currentRunSheet := Some ?u, accountInfos := ?infos3, accountsTab := ?rows2,
                   processedAccounts := k, runSheets := rs\<rparr>"
        have s3: "state_of (writeAccountDataToSpreadsheet e ?s2) = ?s3"
          using w by simp
        have len3: "length ?infos3 = length dn"
          using len by (simp add: length_sortByScore)
        have sets3: "set (map account ?infos3) = set (map getCustomerId dn)"
          using sets by (simp add: set_sortByScore)
        show ?thesis
        proof (cases "writeAccountDataToSpreadsheet e ?s2")
          case (Throw x s3')
          with s3 have "continueUnfinishedReport e s = Throw x ?s3"
            using g itr bl by (simp add: continueUnfinishedReport_def)
          then have "?P dn ?infos3 (Some ?u) rs k"
            using dn len3 sets3 by simp
          then show ?thesis by blast
        next
          case (Return v s3')
          with s3 have wr: "writeAccountDataToSpreadsheet e ?s2 = Return v ?s3" by simp
          have cont: "continueUnfinishedReport e s = completeRun e p ?s3"
            using g itr bl wr by (simp add: continueUnfinishedReport_def)
          have rows2: "?rows2 \<noteq> []" using rows by (simp add: markedRows_def)
          have all: "allAccountsProcessed ?s3 = Inr (\<forall>r \<in> set ?rows2. \<not> unprocessed r)"
            using rows2 by (simp add: allAccountsProcessed_def allProcessedLoop_iff)
          have nonempty: "dn \<noteq> []" if "0 < p" "\<forall>r \<in> set ?rows2. \<not> unprocessed r"
          proof
            assume "dn = []"
            with that(2) have np: "\<forall>r \<in> set (accountsTab s). \<not> unprocessed r" by simp
            from p(2) that(1) obtain a where "a \<in> set ?it" by (cases ?it) auto
            then have "getCustomerId a \<in> set accounts" by simp
            from acc [OF this] np show False by blast
          qed
          show ?thesis
          proof (cases "0 < p \<and> (\<forall>r \<in> set ?rows2. \<not> unprocessed r)")
            case False
            then have "completeRun e p ?s3 = Return p ?s3"
              using all by (auto simp: completeRun_def)
            moreover have "\<not> (dn \<noteq> [] \<and> (\<forall>r \<in> set ?rows2. \<not> unprocessed r))"
              using False p(1) by auto
            ultimately have "?P dn ?infos3 (Some ?u) rs k"
              using cont dn len3 sets3 by simp
            then show ?thesis by blast
          next
            case True
            let ?s4 = "markRunAsProcessed e (removeProtection ?s3)"
            have c4: "currentRunSheet ?s4 = Some ?u"
              using hist by (simp add: markRunAsProcessed_def removeProtection_def)
            have "completeRun e p ?s3 =
                Return p (?s4\<lparr>outbox := outbox ?s4 @ readyMails (settings ?s4) ?u\<rparr>)"
              using True all sendEmail_cached [OF c4] by (simp add: completeRun_def)
            also have "?s4\<lparr>outbox := outbox ?s4 @ readyMails (settings ?s4) ?u\<rparr> =
                s\<lparr>currentRunSheet := Some ?u, accountInfos := ?infos3, accountsTab := ?rows2,
                  processedAccounts := k, runSheets := rs,
                  protectedTabs := protectedTabs s - protectedSheets,
                  historyTab := closedHistory e (historyTab s),
                  outbox := outbox s @ readyMails (settings s) ?u\<rparr>"
              using hist by (simp add: markRunAsProcessed_def removeProtection_def closedHistory_def)
            finally have "?P dn ?infos3 (Some ?u) rs k"
              using cont dn len3 sets3 True nonempty by simp
            then show ?thesis by blast
          qed
        qed
      qed
    qed
  qed
qed

lemma init_fields [simp]:
  "accountsTab (init s) = accountsTab s" "historyTab (init s) = historyTab s"
  "protectedTabs (init s) = protectedTabs s" "outbox (init s) = outbox s"
  "runSheets (init s) = runSheets s" "accountInfos (init s) = accountInfos s"
  "currentRunSheet (init s) = currentRunSheet s"
  "settings (init s) = readSettingsLoop (settingsTab s) (settings s)"
  "signalsTab (init s) = signalsTab s" "settingsTab (init s) = settingsTab s"
  by (simp_all add: init_def split: prod.splits)

lemma moduleInit_fields [simp]:
  "accountsTab (moduleInit s) = accountsTab s" "historyTab (moduleInit s) = historyTab s"
  "protectedTabs (moduleInit s) = protectedTabs s" "outbox (moduleInit s) = outbox s"
  "runSheets (moduleInit s) = runSheets s" "accountInfos (moduleInit s) = []"
  "currentRunSheet (moduleInit s) = None" "settings (moduleInit s) = []"
  "signalsTab (moduleInit s) = signalsTab s" "settingsTab (moduleInit s) = settingsTab s"
  by (simp_all add: moduleInit_def)

lemma hasUnfinishedRun_moduleInit [simp]: "hasUnfinishedRun (moduleInit s) = hasUnfinishedRun s"
  by (simp add: hasUnfinishedRun_def)

lemma hasUnfinishedRun_history: "hasUnfinishedRun s \<Longrightarrow> historyTab s \<noteq> []"
  by (auto simp: hasUnfinishedRun_def)

lemma invocation_open:
  assumes "hasUnfinishedRun w"
  shows "invocation e w =
     (case continueUnfinishedReport e (init (moduleInit w)) of
        Throw x s1 \<Rightarrow> Throw x s1
      | Return n s1 \<Rightarrow> Return () s1)"
  using assms by (simp add: invocation_def main_def Let_def)

lemma markRunAsProcessed_history:
  "historyTab s \<noteq> [] \<Longrightarrow> historyTab (markRunAsProcessed e s) = closedHistory e (historyTab s)"
  by (simp add: markRunAsProcessed_def closedHistory_def)

lemma hasUnfinishedRun_closed:
  assumes "historyTab s = closedHistory e h" and "getTimestamp e \<noteq> 0"
  shows "\<not> hasUnfinishedRun s"
  using assms by (simp add: hasUnfinishedRun_def closedHistory_def)

lemma hasUnfinishedRun_same:
  assumes "historyTab s = historyTab w"
  shows "hasUnfinishedRun s = hasUnfinishedRun w"
  using assms by (simp add: hasUnfinishedRun_def)

text \<open>
  Claim C5. After a batch invocation that returns, the run is finalized (the protection
  of the configuration sheets removed, the end timestamp of the run set, the mail sent
  to the recipient of the settings) if and only if the invocation processed at least
  one account and every account of the snapshot is now marked processed. Otherwise the
  protection, the History tab and the mails are unchanged and the run stays open; in
  particular an invocation that processes no account never finalizes the run.
\<close>

theorem run_finalized_iff:
  assumes "hasUnfinishedRun w" and "invocation e w = Return v s'"
  shows "(accountInfos s' \<noteq> [] \<and> (\<forall>r \<in> set (accountsTab s'). truthy (js_of_cell (processedCell r)))
          \<longrightarrow> protectedTabs s' = protectedTabs (removeProtection w)
              \<and> historyTab s' = historyTab (markRunAsProcessed e w)
              \<and> outbox s' = outbox w @ readyMails (readSettings (settingsTab w))
                                         (urlCell (last (historyTab w)))
              \<and> (getTimestamp e \<noteq> 0 \<longrightarrow> \<not> hasUnfinishedRun s'))
       \<and> (\<not> (accountInfos s' \<noteq> [] \<and> (\<forall>r \<in> set (accountsTab s'). truthy (js_of_cell (processedCell r))))
          \<longrightarrow> protectedTabs s' = protectedTabs w \<and> historyTab s' = historyTab w
              \<and> outbox s' = outbox w \<and> hasUnfinishedRun s')"
proof -
  let ?s = "init (moduleInit w)"
  have hist: "historyTab ?s \<noteq> []" using assms(1) by (simp add: hasUnfinishedRun_history)
  have hw: "historyTab w \<noteq> []" using assms(1) by (simp add: hasUnfinishedRun_history)
  have ai: "accountInfos ?s = []" and cache: "currentRunSheet ?s = None" by simp_all
  have inv: "invocation e w =
     (case continueUnfinishedReport e ?s of Throw x s1 \<Rightarrow> Throw x s1 | Return n s1 \<Rightarrow> Return () s1)"
    by (rule invocation_open [OF assms(1)])
  from continue_char [OF ai hist cache, of e] show ?thesis
  proof (elim exE conjE disjE, goal_cases)
    case (1 dn infos c rs k x)
    with inv assms(2) show ?case by simp
  next
    case (2 dn infos c rs k n)
    have ne: "infos \<noteq> [] \<longleftrightarrow> dn \<noteq> []" using 2(3) by auto
    from inv assms(2) 2(4) have s': "s' = ?s\<lparr>currentRunSheet := c, accountInfos := infos,
        accountsTab := markedRows (getTimestamp e) (map getCustomerId dn) (accountsTab ?s),
        processedAccounts := k, runSheets := rs\<rparr>" by simp
    have "\<not> (accountInfos s' \<noteq> [] \<and> (\<forall>r \<in> set (accountsTab s'). truthy (js_of_cell (processedCell r))))"
      using 2(5) ne by (simp add: s' unprocessed_def)
    moreover have "protectedTabs s' = protectedTabs w \<and> historyTab s' = historyTab w
              \<and> outbox s' = outbox w \<and> hasUnfinishedRun s'"
      using assms(1) by (simp add: s' hasUnfinishedRun_def split: if_splits)
    ultimately show ?case by blast
  next
    case (3 dn infos c rs k n)
    have ne: "infos \<noteq> [] \<longleftrightarrow> dn \<noteq> []" using 3(3) by auto
    from inv assms(2) 3(4) have s': "s' = ?s\<lparr>currentRunSheet := c, accountInfos := infos,
        accountsTab := markedRows (getTimestamp e) (map getCustomerId dn) (accountsTab ?s),
        processedAccounts := k, runSheets := rs,
        protectedTabs := protectedTabs ?s - protectedSheets,
        historyTab := closedHistory e (historyTab ?s),
        outbox := outbox ?s @ readyMails (settings ?s) (urlCell (last (historyTab ?s)))\<rparr>"
      by simp
    have "accountInfos s' \<noteq> [] \<and> (\<forall>r \<in> set (accountsTab s'). truthy (js_of_cell (processedCell r)))"
      using 3(5,6) ne by (simp add: s' unprocessed_def)
    moreover have "protectedTabs s' = protectedTabs (removeProtection w)
              \<and> historyTab s' = historyTab (markRunAsProcessed e w)
              \<and> outbox s' = outbox w @ readyMails (readSettings (settingsTab w))
                                         (urlCell (last (historyTab w)))"
      using hw by (simp add: s' removeProtection_def markRunAsProcessed_history readSettings_def)
    moreover have "getTimestamp e \<noteq> 0 \<longrightarrow> \<not> hasUnfinishedRun s'"
      by (simp add: s' hasUnfinishedRun_def closedHistory_def)
    ultimately show ?case by blast
  qed
qed


lemma continue_accounts:
  assumes "hasUnfinishedRun w"
  shows "\<exists>dn :: mccAccount list.
       (\<forall>a \<in> set dn. \<exists>r \<in> set (accountsTab w). cid r = getCustomerId a \<and> unprocessed r)
     \<and> accountsTab (state_of (invocation e w)) =
          markedRows (getTimestamp e) (map getCustomerId dn) (accountsTab w)
     \<and> account ` set (accountInfos (state_of (invocation e w))) = getCustomerId ` set dn"
proof -
  let ?s = "init (moduleInit w)"
  have hist: "historyTab ?s \<noteq> []" using assms(1) by (simp add: hasUnfinishedRun_history)
  have ai: "accountInfos ?s = []" and cache: "currentRunSheet ?s = None" by simp_all
  have inv: "state_of (invocation e w) = state_of (continueUnfinishedReport e ?s)"
    by (simp add: invocation_open [OF assms(1)] split: outcome.splits)
  from continue_char [OF ai hist cache, of e] show ?thesis
  proof (elim exE conjE disjE, goal_cases)
    case (1 dn infos c rs k x)
    show ?case unfolding inv using 1 by (intro exI [of _ dn]) simp
  next
    case (2 dn infos c rs k n)
    show ?case unfolding inv using 2 by (intro exI [of _ dn]) simp
  next
    case (3 dn infos c rs k n)
    show ?case unfolding inv using 3 by (intro exI [of _ dn]) simp
  qed
qed

lemma js_ge_nat: "js_ge (Num (real k)) (Num x) \<longleftrightarrow> nat \<lceil>x\<rceil> \<le> k"
  by (simp add: js_ge_def ceiling_le_iff nat_le_iff)

lemma js_lt_nat: "js_lt (Num (real k)) (Num x) \<longleftrightarrow> k < nat \<lceil>x\<rceil>"
  by (simp add: less_ceiling_iff zless_nat_eq_int_zless)

lemma unprocessedLoop_exact:
  assumes "getSetting st ''NumAccountsProcess'' True = Inr nv" and "to_number nv = Num x"
  shows "unprocessedLoop st rows acc =
     Inr (acc @ take (nat \<lceil>x\<rceil> - length acc) (map cid (filter unprocessed rows)))"
proof (induction rows arbitrary: acc)
  case Nil
  show ?case by simp
next
  case (Cons r rows)
  show ?case
  proof (cases "unprocessed r")
    case False
    with Cons.IH [of acc] show ?thesis
      by (simp add: loose_unprocessed)
  next
    case True
    show ?thesis
    proof (cases "nat \<lceil>x\<rceil> \<le> length acc")
      case full: True
      then have "js_ge (Num (real (length acc))) (to_number nv)"
        unfolding assms(2) js_ge_nat .
      then have "unprocessedLoop st (r # rows) acc = Inr acc"
        by (rule unprocessedLoop_full [OF assms(1)])
      with full show ?thesis by simp
    next
      case False
      then have ge: "\<not> js_ge (Num (real (length acc))) (to_number nv)"
        unfolding assms(2) js_ge_nat .
      have tk: "take (nat \<lceil>x\<rceil> - length acc) (map cid (filter unprocessed (r # rows))) =
          cid r # take (nat \<lceil>x\<rceil> - length (acc @ [cid r])) (map cid (filter unprocessed rows))"
        using True False by (simp add: take_Cons')
      have step: "unprocessedLoop st (r # rows) acc = unprocessedLoop st rows (acc @ [cid r])"
        using True ge assms(1) by (simp add: loose_unprocessed)
      show ?thesis
        unfolding step tk Cons.IH by simp
    qed
  qed
qed

lemma getUnprocessedAccounts_exact:
  assumes "getSetting (settings s) ''NumAccountsProcess'' True = Inr nv" and "to_number nv = Num x"
    and "accountsTab s \<noteq> []"
  shows "getUnprocessedAccounts s = Inr (selected x (accountsTab s))"
  using unprocessedLoop_exact [OF assms(1,2), of "accountsTab s" "[]"] assms(3)
  by (simp add: getUnprocessedAccounts_def selected_def)

lemma processAccount_commit:
  assumes "accountsTab s \<noteq> []"
  shows "(case calculateRawSignals (settings s) (signalDefinitions s)
                (accountReport e (getCustomerId a)) of
            Inl x \<Rightarrow> processAccount e a s = Throw x s
          | Inr raw \<Rightarrow>
              processAccount e a s =
                Return ()
                  (s\<lparr>accountInfos := accountInfos s @
                        [processSignals (signalDefinitions s) (sumWeights s)
                           \<lparr>account = getCustomerId a, rawSignals = raw, signals = Map.empty,
                            scoreSum = Num 0, scoreWeights = 0, score = Num 0\<rparr>],
                      accountsTab := markedRows (getTimestamp e) [getCustomerId a] (accountsTab s),
                      processedAccounts := processedAccounts s +
                        length (filter (\<lambda>r. getCustomerId a = cid r) (accountsTab s))\<rparr>))"
  using assms
  by (simp add: processAccount_def processAccountSignals_def markAccountAsProcessed_def
      markLoop_eq markedRows_def split: sum.splits)

lemma batchLoop_Return:
  assumes "accountsTab s \<noteq> []"
    and "getSetting (settings s) ''NumAccountsProcess'' True = Inr nv" and "to_number nv = Num x"
    and "batchLoop e it p s = Return n s'"
  shows "\<exists>infos k. map account infos = map getCustomerId (take (nat \<lceil>x\<rceil> - p) it)
     \<and> s' = s\<lparr>accountInfos := accountInfos s @ infos,
           accountsTab := markedRows (getTimestamp e)
              (map getCustomerId (take (nat \<lceil>x\<rceil> - p) it)) (accountsTab s),
           processedAccounts := k\<rparr>"
  using assms(1,2,4)
proof (induction it arbitrary: p s)
  case Nil
  then show ?case
    by (intro exI [of _ "[]"] exI [of _ "processedAccounts s"]) simp
next
  case (Cons a it)
  show ?case
  proof (cases "p < nat \<lceil>x\<rceil>")
    case False
    then have "\<not> js_lt (Num (real p)) (to_number nv)"
      unfolding assms(3) js_lt_nat .
    with Cons.prems have s': "s' = s" by simp
    from False have z: "nat \<lceil>x\<rceil> - p = 0" by (metis diff_is_0_eq not_less)
    show ?thesis
      unfolding z s'
      by (intro exI [of _ "[]"] exI [of _ "processedAccounts s"]) simp
  next
    case True
    then have lt: "js_lt (Num (real p)) (to_number nv)"
      unfolding assms(3) js_lt_nat .
    from True obtain m where m: "nat \<lceil>x\<rceil> - p = Suc m" "nat \<lceil>x\<rceil> - (p + 1) = m"
      by (metis Suc_diff_Suc Suc_eq_plus1 diff_diff_left plus_1_eq_Suc diff_Suc_1)
    from processAccount_cases [OF Cons.prems(1), of e a]
    show ?thesis
    proof (elim disjE exE conjE)
      fix y assume "processAccount e a s = Throw y s"
      with Cons.prems lt show ?thesis by simp
    next
      fix info k
      let ?s1 = "s\<lparr>accountInfos := accountInfos s @ [info],
            accountsTab := map (\<lambda>r. if getCustomerId a = cid r
                then r\<lparr>processedCell := CNumber (real_of_int (getTimestamp e))\<rparr> else r)
                (accountsTab s),
            processedAccounts := k\<rparr>"
      assume info: "account info = getCustomerId a"
        and ret: "processAccount e a s = Return () ?s1"
      have ne: "accountsTab ?s1 \<noteq> []" using Cons.prems(1) by simp
      have st: "getSetting (settings ?s1) ''NumAccountsProcess'' True = Inr nv"
        using Cons.prems(2) by simp
      have eq: "batchLoop e it (p + 1) ?s1 = Return n s'"
        using Cons.prems lt ret by simp
      from Cons.IH [OF ne st eq]
      obtain infos k' where ih: "map account infos = map getCustomerId (take m it)"
        "s' = ?s1\<lparr>accountInfos := accountInfos ?s1 @ infos,
               accountsTab := markedRows (getTimestamp e) (map getCustomerId (take m it))
                  (accountsTab ?s1),
               processedAccounts := k'\<rparr>"
        unfolding m by blast
      show ?thesis
        unfolding m
        using ih info
        by (intro exI [of _ "info # infos"] exI [of _ k']) (simp add: markedRows_cons)
    qed
  qed
qed

lemma completeRun_fields:
  assumes "completeRun e p s = Return n s'"
  shows "accountsTab s' = accountsTab s \<and> accountInfos s' = accountInfos s"
  using assms
  by (auto simp: completeRun_def sendEmail_def getCurrentRunSheet_def markRunAsProcessed_def
      removeProtection_def split: if_splits sum.splits outcome.splits option.splits)

lemma continue_Return:
  assumes ai: "accountInfos s = []"
    and st: "getSetting (settings s) ''NumAccountsProcess'' True = Inr nv" and num: "to_number nv = Num x"
    and ret: "continueUnfinishedReport e s = Return n s'"
  shows "accountsTab s' =
           markedRows (getTimestamp e) (map getCustomerId (batch x e (accountsTab s))) (accountsTab s)
       \<and> mset (map account (accountInfos s')) = mset (map getCustomerId (batch x e (accountsTab s)))"
proof -
  from ret obtain u s1 where g: "getCurrentRunSheet s = Return u s1"
    by (cases "getCurrentRunSheet s") (simp_all add: continueUnfinishedReport_def)
  then have s1: "s1 = s\<lparr>currentRunSheet := Some u\<rparr>" by (rule getCurrentRunSheet_Return)
  from ret g obtain it where itr: "getUnprocessedAccountIterator e s1 = Inr it"
    by (cases "getUnprocessedAccountIterator e s1") (simp_all add: continueUnfinishedReport_def)
  then have rows: "accountsTab s \<noteq> []"
    by (auto simp: getUnprocessedAccountIterator_def getUnprocessedAccounts_def s1
        split: sum.splits if_splits)
  have st1: "getSetting (settings s1) ''NumAccountsProcess'' True = Inr nv"
    using st by (simp add: s1)
  have rows1: "accountsTab s1 \<noteq> []" using rows by (simp add: s1)
  have it: "it = filter (\<lambda>a. getCustomerId a \<in> set (selected x (accountsTab s))) (mccAccounts e)"
    using itr getUnprocessedAccounts_exact [OF st1 num rows1]
    by (simp add: getUnprocessedAccountIterator_def s1)
  from ret g itr obtain p s2 where bl: "batchLoop e it 0 s1 = Return p s2"
    by (cases "batchLoop e it 0 s1") (simp_all add: continueUnfinishedReport_def)
  from batchLoop_Return [OF rows1 st1 num bl] obtain infos k where
    infos: "map account infos = map getCustomerId (take (nat \<lceil>x\<rceil> - 0) it)"
    and s2: "s2 = s1\<lparr>accountInfos := accountInfos s1 @ infos,
           accountsTab := markedRows (getTimestamp e)
              (map getCustomerId (take (nat \<lceil>x\<rceil> - 0) it)) (accountsTab s1),
           processedAccounts := k\<rparr>"
    by blast
  have b: "take (nat \<lceil>x\<rceil> - 0) it = batch x e (accountsTab s)"
    by (simp add: batch_def it)
  from ret g itr bl obtain v s3 where wr: "writeAccountDataToSpreadsheet e s2 = Return v s3"
    by (cases "writeAccountDataToSpreadsheet e s2") (simp_all add: continueUnfinishedReport_def)
  have c2: "currentRunSheet s2 = Some u" by (simp add: s2 s1)
  from writeAccountData_cached [OF c2, of e] wr obtain rs where
    s3: "s3 = s2\<lparr>accountInfos := sortByScore (sortOrder e) (accountInfos s2), runSheets := rs\<rparr>"
    by auto
  from ret g itr bl wr have "completeRun e p s3 = Return n s'"
    by (simp add: continueUnfinishedReport_def)
  from completeRun_fields [OF this]
  have "accountsTab s' = accountsTab s3" "accountInfos s' = accountInfos s3" by simp_all
  then have "accountsTab s' = markedRows (getTimestamp e) (map getCustomerId (batch x e (accountsTab s))) (accountsTab s)"
    and "accountInfos s' = sortByScore (sortOrder e) infos"
    unfolding b [symmetric] by (simp_all add: s3 s2 s1 ai)
  moreover have "mset (map account (sortByScore (sortOrder e) infos)) = mset (map account infos)"
    using mset_sortByScore [of "sortOrder e" infos] by (metis mset_map)
  ultimately show ?thesis
    using infos b by simp
qed

text \<open>
  Claim C3. In a run with an open record, whatever number of accounts is already
  marked: the accounts selected are a prefix of the unprocessed accounts in the order of
  the snapshot, and with a batch size \<open>x\<close> they are exactly the first \<open>\<lceil>x\<rceil>\<close> of them;
  \<open>processAccount\<close> either throws and changes nothing, or it appends the scored account
  to the account infos and stamps the rows of the account with the current timestamp in
  the same step; an invocation that returns has scored exactly the accounts of its batch
  and stamped exactly their rows. Every account scored by an invocation had an empty
  timestamp before and has the current timestamp after it, also when the invocation
  throws later in the batch; and an account that was marked before keeps its row and is
  not scored again. The customer ids of the snapshot are distinct and the clock is not
  at zero.
\<close>

theorem processed_accounts_not_selected_again:
  assumes "hasUnfinishedRun w" and "distinct (map cid (accountsTab w))" and "getTimestamp e \<noteq> 0"
  shows "(getUnprocessedAccounts s = Inr accounts \<longrightarrow>
            (\<exists>m. accounts = take m (map cid (filter unprocessed (accountsTab s)))))
     \<and> (\<forall>i \<in> set (accountInfos (state_of (invocation e w))).
           (\<exists>r \<in> set (accountsTab w). cid r = account i \<and> unprocessed r)
           \<and> (\<forall>r \<in> set (accountsTab (state_of (invocation e w))). cid r = account i \<longrightarrow>
                 processedCell r = CNumber (real_of_int (getTimestamp e)) \<and> \<not> unprocessed r))
     \<and> map cid (accountsTab (state_of (invocation e w))) = map cid (accountsTab w)
     \<and> (\<forall>j < length (accountsTab w).
           (\<not> unprocessed (accountsTab w ! j) \<longrightarrow>
              accountsTab (state_of (invocation e w)) ! j = accountsTab w ! j
              \<and> cid (accountsTab w ! j) \<notin> account ` set (accountInfos (state_of (invocation e w))))
         \<and> (cid (accountsTab w ! j) \<notin> account ` set (accountInfos (state_of (invocation e w))) \<longrightarrow>
              accountsTab (state_of (invocation e w)) ! j = accountsTab w ! j))
     \<and> (getSetting (settings s) ''NumAccountsProcess'' True = Inr nv \<and> to_number nv = Num x
           \<and> accountsTab s \<noteq> [] \<longrightarrow>
         getUnprocessedAccounts s = Inr (selected x (accountsTab s)))
     \<and> (accountsTab s \<noteq> [] \<longrightarrow>
         (case calculateRawSignals (settings s) (signalDefinitions s)
                 (accountReport e (getCustomerId a)) of
            Inl y \<Rightarrow> processAccount e a s = Throw y s
          | Inr raw \<Rightarrow>
              processAccount e a s =
                Return ()
                  (s\<lparr>accountInfos := accountInfos s @
                        [processSignals (signalDefinitions s) (sumWeights s)
                           \<lparr>account = getCustomerId a, rawSignals = raw, signals = Map.empty,
                            scoreSum = Num 0, scoreWeights = 0, score = Num 0\<rparr>],
                      accountsTab := markedRows (getTimestamp e) [getCustomerId a] (accountsTab s),
                      processedAccounts := processedAccounts s +
                        length (filter (\<lambda>r. getCustomerId a = cid r) (accountsTab s))\<rparr>)))
     \<and> (getSetting (readSettings (settingsTab w)) ''NumAccountsProcess'' True = Inr nv
           \<and> to_number nv = Num x \<and> invocation e w = Return () s' \<longrightarrow>
         accountsTab s' =
           markedRows (getTimestamp e) (map getCustomerId (batch x e (accountsTab w))) (accountsTab w)
         \<and> mset (map account (accountInfos s')) = mset (map getCustomerId (batch x e (accountsTab w))))"
proof -
  let ?s' = "state_of (invocation e w)"
  let ?rows = "accountsTab w"
  let ?t = "getTimestamp e"
  from continue_accounts [OF assms(1), of e] obtain dn :: "mccAccount list" where
    all: "(\<forall>a \<in> set dn. \<exists>r \<in> set ?rows. cid r = getCustomerId a \<and> unprocessed r)
      \<and> accountsTab ?s' = markedRows ?t (map getCustomerId dn) ?rows
      \<and> account ` set (accountInfos ?s') = getCustomerId ` set dn" ..
  from all have dn: "\<forall>a \<in> set dn. \<exists>r \<in> set ?rows. cid r = getCustomerId a \<and> unprocessed r"
    by (rule conjunct1)
  from all have rows': "accountsTab ?s' = markedRows ?t (map getCustomerId dn) ?rows"
    by (elim conjE)
  from all have infos: "account ` set (accountInfos ?s') = getCustomerId ` set dn"
    by (elim conjE)
  have sel: "getUnprocessedAccounts s = Inr accounts \<longrightarrow>
            (\<exists>m. accounts = take m (map cid (filter unprocessed (accountsTab s))))"
    using getUnprocessedAccounts_take by blast
  have scored: "\<exists>r \<in> set ?rows. cid r = account i \<and> unprocessed r"
    if "i \<in> set (accountInfos ?s')" for i
  proof -
    from that infos have "account i \<in> getCustomerId ` set dn" by blast
    then show ?thesis using dn by auto
  qed
  have marked: "processedCell r = CNumber (real_of_int ?t) \<and> \<not> unprocessed r"
    if "i \<in> set (accountInfos ?s')" "r \<in> set (accountsTab ?s')" "cid r = account i" for i r
  proof -
    from that(1) infos have c: "account i \<in> set (map getCustomerId dn)" by auto
    from that(2) rows' obtain r0 where r0: "r0 \<in> set ?rows"
      and r: "r = (if cid r0 \<in> set (map getCustomerId dn)
            then r0\<lparr>processedCell := CNumber (real_of_int ?t)\<rparr> else r0)"
      by (auto simp: markedRows_def)
    show ?thesis
    proof (cases "cid r0 \<in> set (map getCustomerId dn)")
      case True
      then have "r = r0\<lparr>processedCell := CNumber (real_of_int ?t)\<rparr>"
        by (simp add: r)
      then show ?thesis using assms(3) by (simp add: unprocessed_def)
    next
      case False
      then have "r = r0" by (simp add: r)
      with that(3) have "cid r0 = account i" by simp
      with c False show ?thesis by simp
    qed
  qed
  have cids: "map cid (accountsTab ?s') = map cid ?rows"
    unfolding rows' by (simp add: markedRows_def comp_def)
  have uniq: "r = r'" if "r \<in> set ?rows" "r' \<in> set ?rows" "cid r = cid r'" for r r'
    using assms(2) that by (meson distinct_map inj_onD)
  have kept: "accountsTab ?s' ! j = ?rows ! j
       \<and> cid (?rows ! j) \<notin> account ` set (accountInfos ?s')"
    if "j < length ?rows" "\<not> unprocessed (?rows ! j)" for j
  proof -
    have notin: "cid (?rows ! j) \<notin> getCustomerId ` set dn"
    proof
      assume "cid (?rows ! j) \<in> getCustomerId ` set dn"
      then obtain r where "r \<in> set ?rows" "cid r = cid (?rows ! j)" "unprocessed r"
        using dn by auto
      with uniq [of r "?rows ! j"] that show False by simp
    qed
    then show ?thesis using that(1) infos by (simp add: rows' markedRows_def)
  qed
  have untouched: "accountsTab ?s' ! j = ?rows ! j"
    if "j < length ?rows" "cid (?rows ! j) \<notin> account ` set (accountInfos ?s')" for j
    using that infos by (simp add: rows' markedRows_def)
  show ?thesis
  proof (intro conjI)
    show "getUnprocessedAccounts s = Inr accounts \<longrightarrow>
            (\<exists>m. accounts = take m (map cid (filter unprocessed (accountsTab s))))"
      by (rule sel)
    show "\<forall>i \<in> set (accountInfos ?s').
           (\<exists>r \<in> set ?rows. cid r = account i \<and> unprocessed r)
           \<and> (\<forall>r \<in> set (accountsTab ?s'). cid r = account i \<longrightarrow>
                 processedCell r = CNumber (real_of_int ?t) \<and> \<not> unprocessed r)"
    proof (intro ballI conjI impI)
      fix i assume "i \<in> set (accountInfos ?s')"
      then show "\<exists>r \<in> set ?rows. cid r = account i \<and> unprocessed r" by (rule scored)
    next
      fix i r assume "i \<in> set (accountInfos ?s')" "r \<in> set (accountsTab ?s')" "cid r = account i"
      then show "processedCell r = CNumber (real_of_int ?t)" "\<not> unprocessed r"
        using marked by simp_all
    qed
    show "map cid (accountsTab ?s') = map cid ?rows" by (rule cids)
    show "\<forall>j < length ?rows.
           (\<not> unprocessed (?rows ! j) \<longrightarrow>
              accountsTab ?s' ! j = ?rows ! j
              \<and> cid (?rows ! j) \<notin> account ` set (accountInfos ?s'))
         \<and> (cid (?rows ! j) \<notin> account ` set (accountInfos ?s') \<longrightarrow>
              accountsTab ?s' ! j = ?rows ! j)"
    proof (intro allI impI conjI)
      fix j assume "j < length ?rows" "\<not> unprocessed (?rows ! j)"
      then show "accountsTab ?s' ! j = ?rows ! j"
        "cid (?rows ! j) \<notin> account ` set (accountInfos ?s')"
        using kept by simp_all
    next
      fix j assume "j < length ?rows" "cid (?rows ! j) \<notin> account ` set (accountInfos ?s')"
      then show "accountsTab ?s' ! j = ?rows ! j" by (rule untouched)
    qed
    show "getSetting (settings s) ''NumAccountsProcess'' True = Inr nv \<and> to_number nv = Num x
           \<and> accountsTab s \<noteq> [] \<longrightarrow>
         getUnprocessedAccounts s = Inr (selected x (accountsTab s))"
      using getUnprocessedAccounts_exact by blast
    show "accountsTab s \<noteq> [] \<longrightarrow>
         (case calculateRawSignals (settings s) (signalDefinitions s)
                 (accountReport e (getCustomerId a)) of
            Inl y \<Rightarrow> processAccount e a s = Throw y s
          | Inr raw \<Rightarrow>
              processAccount e a s =
                Return ()
                  (s\<lparr>accountInfos := accountInfos s @
                        [processSignals (signalDefinitions s) (sumWeights s)
                           \<lparr>account = getCustomerId a, rawSignals = raw, signals = Map.empty,
                            scoreSum = Num 0, scoreWeights = 0, score = Num 0\<rparr>],
                      accountsTab := markedRows (getTimestamp e) [getCustomerId a] (accountsTab s),
                      processedAccounts := processedAccounts s +
                        length (filter (\<lambda>r. getCustomerId a = cid r) (accountsTab s))\<rparr>))"
      by (rule impI) (rule processAccount_commit)
    show "getSetting (readSettings (settingsTab w)) ''NumAccountsProcess'' True = Inr nv
           \<and> to_number nv = Num x \<and> invocation e w = Return () s' \<longrightarrow>
         accountsTab s' =
           markedRows (getTimestamp e) (map getCustomerId (batch x e (accountsTab w))) (accountsTab w)
         \<and> mset (map account (accountInfos s')) = mset (map getCustomerId (batch x e (accountsTab w)))"
    proof (intro impI, elim conjE)
      let ?s = "init (moduleInit w)"
      assume st: "getSetting (readSettings (settingsTab w)) ''NumAccountsProcess'' True = Inr nv"
        and num: "to_number nv = Num x" and ret: "invocation e w = Return () s'"
      have ai: "accountInfos ?s = []" by simp
      have st': "getSetting (settings ?s) ''NumAccountsProcess'' True = Inr nv"
        using st by (simp add: readSettings_def)
      from ret obtain n where "continueUnfinishedReport e ?s = Return n s'"
        unfolding invocation_open [OF assms(1)]
        by (cases "continueUnfinishedReport e ?s") simp_all
      from continue_Return [OF ai st' num this]
      show "accountsTab s' =
           markedRows (getTimestamp e) (map getCustomerId (batch x e (accountsTab w))) (accountsTab w)
         \<and> mset (map account (accountInfos s')) = mset (map getCustomerId (batch x e (accountsTab w)))"
        by simp
    qed
  qed
qed


lemmas run_defs = invocation_def main_def moduleInit_def init_def readSignalDefinitions_def
  calculateSumWeights_def hasUnfinishedRun_def continueUnfinishedReport_def
  getCurrentRunSheet_def getUnprocessedAccountIterator_def getUnprocessedAccounts_def
  processAccount_def processAccountSignals_def calculateRawSignals_def processSignals_def
  percentToFraction_def normalize_def js_ge_def js_sub_def property_def num_eq_def
  markAccountAsProcessed_def markLoop_eq writeAccountDataToSpreadsheet_def getAccountInfos_def
  sortByScore_def rearrangement_def descending_def compareScores_def
  writeHeaderRow_def writeDataRow_def completeRun_def allAccountsProcessed_def
  removeProtection_def markRunAsProcessed_def sendEmail_def
  openRun_def settingsRows_def threeAccounts_def env0_def ctr_def emptyReport_def
  protectedSheets_def parse_defs


lemma example_invocation:
  "\<exists>s'. invocation env0 (openRun [ctr] (settingsRows (CNumber 7) (CNumber 2)) threeAccounts)
           = Return () s'
     \<and> map account (accountInfos s') = [''2'', ''3'']
     \<and> map score (accountInfos s') = [Num (4 / 9), Num (4 / 9)]
     \<and> accountsTab s' = [\<lparr>cid = ''1'', processedCell = CNumber 1500\<rparr>,
                         \<lparr>cid = ''2'', processedCell = CNumber 2000\<rparr>,
                         \<lparr>cid = ''3'', processedCell = CNumber 2000\<rparr>]
     \<and> historyTab s' = [\<lparr>startCell = CNumber 1000, endCell = CNumber 2000, urlCell = ''run1''\<rparr>]
     \<and> protectedTabs s' = {}
     \<and> outbox s' = [\<lparr>mailTo = JString ''a@b.c'', mailSubject = ''Kratu Report is ready'',
                      mailBody = ''run1''\<rparr>]"
  by (simp add: run_defs)

theorem run_finalized_iff_witness:
  "hasUnfinishedRun (openRun [ctr] (settingsRows (CNumber 7) (CNumber 2)) threeAccounts)
   \<and> (\<exists>s'. invocation env0 (openRun [ctr] (settingsRows (CNumber 7) (CNumber 2)) threeAccounts)
              = Return () s'
        \<and> accountInfos s' \<noteq> []
        \<and> list_all (\<lambda>r. truthy (js_of_cell (processedCell r))) (accountsTab s')
        \<and> protectedTabs s' = {}
        \<and> historyTab s' = [\<lparr>startCell = CNumber 1000, endCell = CNumber 2000, urlCell = ''run1''\<rparr>]
        \<and> outbox s' = [\<lparr>mailTo = JString ''a@b.c'', mailSubject = ''Kratu Report is ready'',
                         mailBody = ''run1''\<rparr>]
        \<and> \<not> hasUnfinishedRun s')"
proof -
  let ?w = "openRun [ctr] (settingsRows (CNumber 7) (CNumber 2)) threeAccounts"
  have h: "hasUnfinishedRun ?w"
    by (simp add: openRun_def hasUnfinishedRun_def)
  from example_invocation obtain s' where
    ex: "invocation env0 ?w = Return () s'
     \<and> map account (accountInfos s') = [''2'', ''3'']
     \<and> map score (accountInfos s') = [Num (4 / 9), Num (4 / 9)]
     \<and> accountsTab s' = [\<lparr>cid = ''1'', processedCell = CNumber 1500\<rparr>,
                         \<lparr>cid = ''2'', processedCell = CNumber 2000\<rparr>,
                         \<lparr>cid = ''3'', processedCell = CNumber 2000\<rparr>]
     \<and> historyTab s' = [\<lparr>startCell = CNumber 1000, endCell = CNumber 2000, urlCell = ''run1''\<rparr>]
     \<and> protectedTabs s' = {}
     \<and> outbox s' = [\<lparr>mailTo = JString ''a@b.c'', mailSubject = ''Kratu Report is ready'',
                      mailBody = ''run1''\<rparr>]" ..
  from ex have r: "invocation env0 ?w = Return () s'"
    by (rule conjunct1)
  from ex have i: "map account (accountInfos s') = [''2'', ''3'']"
    by (elim conjE)
  from ex have a: "accountsTab s' = [\<lparr>cid = ''1'', processedCell = CNumber 1500\<rparr>,
                         \<lparr>cid = ''2'', processedCell = CNumber 2000\<rparr>,
                         \<lparr>cid = ''3'', processedCell = CNumber 2000\<rparr>]"
    by (elim conjE)
  have c: "accountInfos s' \<noteq> [] \<and> (\<forall>r \<in> set (accountsTab s'). truthy (js_of_cell (processedCell r)))"
    using i by (auto simp: a)
  note fin = conjunct1 [OF run_finalized_iff [OF h r], THEN mp, OF c]
  from fin have "protectedTabs s' = {}
      \<and> historyTab s' = [\<lparr>startCell = CNumber 1000, endCell = CNumber 2000, urlCell = ''run1''\<rparr>]
      \<and> outbox s' = [\<lparr>mailTo = JString ''a@b.c'', mailSubject = ''Kratu Report is ready'',
                         mailBody = ''run1''\<rparr>]
      \<and> \<not> hasUnfinishedRun s'"
    by (simp add: removeProtection_def markRunAsProcessed_def openRun_def env0_def readyMails_def
        readSettings_def settingsRows_def protectedSheets_def)
  with h r c show ?thesis
    by (intro conjI exI [of _ s']) (simp_all add: list_all_iff)
qed

theorem processed_accounts_not_selected_again_witness:
  "hasUnfinishedRun (openRun [ctr] (settingsRows (CNumber 7) (CNumber 2)) threeAccounts)
   \<and> distinct (map cid (accountsTab (openRun [ctr] (settingsRows (CNumber 7) (CNumber 2)) threeAccounts)))
   \<and> getTimestamp env0 \<noteq> 0
   \<and> \<not> unprocessed (accountsTab (openRun [ctr] (settingsRows (CNumber 7) (CNumber 2)) threeAccounts) ! 0)
   \<and> accountsTab (state_of (invocation env0
         (openRun [ctr] (settingsRows (CNumber 7) (CNumber 2)) threeAccounts))) ! 0
       = \<lparr>cid = ''1'', processedCell = CNumber 1500\<rparr>
   \<and> ''1'' \<notin> account ` set (accountInfos (state_of (invocation env0
         (openRun [ctr] (settingsRows (CNumber 7) (CNumber 2)) threeAccounts))))
   \<and> map cid (accountsTab (state_of (invocation env0
         (openRun [ctr] (settingsRows (CNumber 7) (CNumber 2)) threeAccounts)))) = [''1'', ''2'', ''3'']
   \<and> getUnprocessedAccounts
         (init (moduleInit (openRun [ctr] (settingsRows (CNumber 7) (CNumber 2)) threeAccounts)))
       = Inr [''2'', ''3'']
   \<and> (\<exists>s1. processAccount env0 \<lparr>getCustomerId = ''2'', labelNames = []\<rparr>
              (init (moduleInit (openRun [ctr] (settingsRows (CNumber 7) (CNumber 2)) threeAccounts)))
            = Return () s1
        \<and> map account (accountInfos s1) = [''2'']
        \<and> map score (accountInfos s1) = [Num (4 / 9)]
        \<and> accountsTab s1 = [\<lparr>cid = ''1'', processedCell = CNumber 1500\<rparr>,
                            \<lparr>cid = ''2'', processedCell = CNumber 2000\<rparr>,
                            \<lparr>cid = ''3'', processedCell = CString []\<rparr>])
   \<and> (\<exists>s'. invocation env0 (openRun [ctr] (settingsRows (CNumber 7) (CNumber 2)) threeAccounts)
              = Return () s'
        \<and> accountsTab s' = [\<lparr>cid = ''1'', processedCell = CNumber 1500\<rparr>,
                            \<lparr>cid = ''2'', processedCell = CNumber 2000\<rparr>,
                            \<lparr>cid = ''3'', processedCell = CNumber 2000\<rparr>]
        \<and> mset (map account (accountInfos s')) = mset [''2'', ''3''])"
proof -
  let ?w = "openRun [ctr] (settingsRows (CNumber 7) (CNumber 2)) threeAccounts"
  let ?s = "init (moduleInit ?w)"
  let ?a = "\<lparr>getCustomerId = ''2'', labelNames = []\<rparr>"
  have h: "hasUnfinishedRun ?w"
    by (simp add: openRun_def hasUnfinishedRun_def)
  have d: "distinct (map cid (accountsTab ?w))"
    by (simp add: openRun_def threeAccounts_def)
  have t: "getTimestamp env0 \<noteq> 0"
    by (simp add: env0_def)
  have u: "\<not> unprocessed (accountsTab ?w ! 0)" and l: "0 < length (accountsTab ?w)"
    and r0: "accountsTab ?w ! 0 = \<lparr>cid = ''1'', processedCell = CNumber 1500\<rparr>"
    and cs: "map cid (accountsTab ?w) = [''1'', ''2'', ''3'']"
    by (simp_all add: openRun_def threeAccounts_def unprocessed_def)
  from example_invocation obtain s' where
    ex: "invocation env0 ?w = Return () s'
     \<and> map account (accountInfos s') = [''2'', ''3'']
     \<and> map score (accountInfos s') = [Num (4 / 9), Num (4 / 9)]
     \<and> accountsTab s' = [\<lparr>cid = ''1'', processedCell = CNumber 1500\<rparr>,
                         \<lparr>cid = ''2'', processedCell = CNumber 2000\<rparr>,
                         \<lparr>cid = ''3'', processedCell = CNumber 2000\<rparr>]
     \<and> historyTab s' = [\<lparr>startCell = CNumber 1000, endCell = CNumber 2000, urlCell = ''run1''\<rparr>]
     \<and> protectedTabs s' = {}
     \<and> outbox s' = [\<lparr>mailTo = JString ''a@b.c'', mailSubject = ''Kratu Report is ready'',
                      mailBody = ''run1''\<rparr>]" ..
  from ex have ret: "invocation env0 ?w = Return () s'"
    by (rule conjunct1)
  note inst = processed_accounts_not_selected_again [OF h d t,
      where s = ?s and accounts = "[]" and nv = "JNumber (Num 2)" and x = 2 and a = ?a and s' = s']
  from inst have cids: "map cid (accountsTab (state_of (invocation env0 ?w))) = map cid (accountsTab ?w)"
    by (elim conjE)
  from inst have "\<forall>j < length (accountsTab ?w).
           (\<not> unprocessed (accountsTab ?w ! j) \<longrightarrow>
              accountsTab (state_of (invocation env0 ?w)) ! j = accountsTab ?w ! j
              \<and> cid (accountsTab ?w ! j) \<notin> account ` set (accountInfos (state_of (invocation env0 ?w))))
         \<and> (cid (accountsTab ?w ! j) \<notin> account ` set (accountInfos (state_of (invocation env0 ?w))) \<longrightarrow>
              accountsTab (state_of (invocation env0 ?w)) ! j = accountsTab ?w ! j)"
    by (elim conjE)
  with u l cids
  have kept: "accountsTab (state_of (invocation env0 ?w)) ! 0 = accountsTab ?w ! 0
      \<and> cid (accountsTab ?w ! 0) \<notin> account ` set (accountInfos (state_of (invocation env0 ?w)))
      \<and> map cid (accountsTab (state_of (invocation env0 ?w))) = map cid (accountsTab ?w)"
    by simp
  have rows: "accountsTab ?w = threeAccounts"
    by (simp add: openRun_def)
  have ne: "accountsTab ?s \<noteq> []"
    by (simp add: openRun_def threeAccounts_def)
  have st: "getSetting (settings ?s) ''NumAccountsProcess'' True = Inr (JNumber (Num 2))"
    by (simp add: openRun_def settingsRows_def)
  have st': "getSetting (readSettings (settingsTab ?w)) ''NumAccountsProcess'' True = Inr (JNumber (Num 2))"
    using st by (simp add: readSettings_def)
  have num: "to_number (JNumber (Num 2)) = Num 2" by simp
  have sel: "selected 2 threeAccounts = [''2'', ''3'']"
    by (simp add: selected_def threeAccounts_def unprocessed_def)
  have bt: "batch 2 env0 threeAccounts = [\<lparr>getCustomerId = ''2'', labelNames = []\<rparr>,
                                          \<lparr>getCustomerId = ''3'', labelNames = []\<rparr>]"
    by (simp add: batch_def sel env0_def)
  from inst have "getSetting (settings ?s) ''NumAccountsProcess'' True = Inr (JNumber (Num 2))
       \<and> to_number (JNumber (Num 2)) = Num 2 \<and> accountsTab ?s \<noteq> [] \<longrightarrow>
         getUnprocessedAccounts ?s = Inr (selected 2 (accountsTab ?s))"
    by (elim conjE)
  with st num ne have c5: "getUnprocessedAccounts ?s = Inr [''2'', ''3'']"
    by (simp add: rows sel)
  from inst have "getSetting (readSettings (settingsTab ?w)) ''NumAccountsProcess'' True = Inr (JNumber (Num 2))
           \<and> to_number (JNumber (Num 2)) = Num 2 \<and> invocation env0 ?w = Return () s' \<longrightarrow>
         accountsTab s' =
           markedRows (getTimestamp env0) (map getCustomerId (batch 2 env0 (accountsTab ?w))) (accountsTab ?w)
         \<and> mset (map account (accountInfos s')) = mset (map getCustomerId (batch 2 env0 (accountsTab ?w)))"
    by (elim conjE)
  with st' num ret have "accountsTab s' =
           markedRows (getTimestamp env0) (map getCustomerId (batch 2 env0 (accountsTab ?w))) (accountsTab ?w)
         \<and> mset (map account (accountInfos s')) = mset (map getCustomerId (batch 2 env0 (accountsTab ?w)))"
    by blast
  then have c7: "accountsTab s' = [\<lparr>cid = ''1'', processedCell = CNumber 1500\<rparr>,
                            \<lparr>cid = ''2'', processedCell = CNumber 2000\<rparr>,
                            \<lparr>cid = ''3'', processedCell = CNumber 2000\<rparr>]
        \<and> mset (map account (accountInfos s')) = mset [''2'', ''3'']"
    by (simp add: rows bt) (simp add: markedRows_def threeAccounts_def env0_def)
  from c7 have a7: "accountsTab s' = [\<lparr>cid = ''1'', processedCell = CNumber 1500\<rparr>,
                            \<lparr>cid = ''2'', processedCell = CNumber 2000\<rparr>,
                            \<lparr>cid = ''3'', processedCell = CNumber 2000\<rparr>]"
    and m7: "mset (map account (accountInfos s')) = mset [''2'', ''3'']"
    by (rule conjunct1, rule conjunct2)
  have e7: "\<exists>s'. invocation env0 ?w = Return () s'
        \<and> accountsTab s' = [\<lparr>cid = ''1'', processedCell = CNumber 1500\<rparr>,
                            \<lparr>cid = ''2'', processedCell = CNumber 2000\<rparr>,
                            \<lparr>cid = ''3'', processedCell = CNumber 2000\<rparr>]
        \<and> mset (map account (accountInfos s')) = mset [''2'', ''3'']"
    by (intro exI [of _ s'] conjI) (rule ret a7 m7)+
  have raw: "calculateRawSignals (settings ?s) (signalDefinitions ?s)
                 (accountReport env0 (getCustomerId ?a)) = Inr [''Ctr'' \<mapsto> JNumber (Num (1 / 20))]"
    by (simp add: run_defs)
  define s1 where "s1 = ?s\<lparr>accountInfos := accountInfos ?s @
                        [processSignals (signalDefinitions ?s) (sumWeights ?s)
                           \<lparr>account = getCustomerId ?a,
                            rawSignals = [''Ctr'' \<mapsto> JNumber (Num (1 / 20))], signals = Map.empty,
                            scoreSum = Num 0, scoreWeights = 0, score = Num 0\<rparr>],
                      accountsTab := markedRows (getTimestamp env0) [getCustomerId ?a] (accountsTab ?s),
                      processedAccounts := processedAccounts ?s +
                        length (filter (\<lambda>r. getCustomerId ?a = cid r) (accountsTab ?s))\<rparr>"
  from inst have "accountsTab ?s \<noteq> [] \<longrightarrow>
         (case calculateRawSignals (settings ?s) (signalDefinitions ?s)
                 (accountReport env0 (getCustomerId ?a)) of
            Inl y \<Rightarrow> processAccount env0 ?a ?s = Throw y ?s
          | Inr raw \<Rightarrow>
              processAccount env0 ?a ?s =
                Return ()
                  (?s\<lparr>accountInfos := accountInfos ?s @
                        [processSignals (signalDefinitions ?s) (sumWeights ?s)
                           \<lparr>account = getCustomerId ?a, rawSignals = raw, signals = Map.empty,
                            scoreSum = Num 0, scoreWeights = 0, score = Num 0\<rparr>],
                      accountsTab := markedRows (getTimestamp env0) [getCustomerId ?a] (accountsTab ?s),
                      processedAccounts := processedAccounts ?s +
                        length (filter (\<lambda>r. getCustomerId ?a = cid r) (accountsTab ?s))\<rparr>))"
    by (elim conjE)
  from this [THEN mp, OF ne] have pa: "processAccount env0 ?a ?s = Return () s1"
    unfolding raw s1_def by (simp only: sum.case)
  have i1: "map account (accountInfos s1) = [''2'']"
    and i2: "map score (accountInfos s1) = [Num (4 / 9)]"
    and i3: "accountsTab s1 = [\<lparr>cid = ''1'', processedCell = CNumber 1500\<rparr>,
                            \<lparr>cid = ''2'', processedCell = CNumber 2000\<rparr>,
                            \<lparr>cid = ''3'', processedCell = CString []\<rparr>]"
    by (simp_all add: s1_def run_defs markedRows_def)
  have e6: "\<exists>s1. processAccount env0 ?a ?s = Return () s1
        \<and> map account (accountInfos s1) = [''2'']
        \<and> map score (accountInfos s1) = [Num (4 / 9)]
        \<and> accountsTab s1 = [\<lparr>cid = ''1'', processedCell = CNumber 1500\<rparr>,
                            \<lparr>cid = ''2'', processedCell = CNumber 2000\<rparr>,
                            \<lparr>cid = ''3'', processedCell = CString []\<rparr>]"
    by (intro exI [of _ s1] conjI) (rule pa i1 i2 i3)+
  from kept have k1: "accountsTab (state_of (invocation env0 ?w)) ! 0
       = \<lparr>cid = ''1'', processedCell = CNumber 1500\<rparr>"
    and k2: "''1'' \<notin> account ` set (accountInfos (state_of (invocation env0 ?w)))"
    and k3: "map cid (accountsTab (state_of (invocation env0 ?w))) = [''1'', ''2'', ''3'']"
    by (simp_all add: r0 cs)
  show ?thesis
    by (intro conjI) (rule h d t u k1 k2 k3 c5 e6 e7)+
qed

lemma continue_history:
  assumes "hasUnfinishedRun w"
  shows "historyTab (state_of (invocation e w)) = historyTab w
     \<or> historyTab (state_of (invocation e w)) = closedHistory e (historyTab w)"
proof -
  let ?s = "init (moduleInit w)"
  have hist: "historyTab ?s \<noteq> []" using assms(1) by (simp add: hasUnfinishedRun_history)
  have ai: "accountInfos ?s = []" and cache: "currentRunSheet ?s = None" by simp_all
  have inv: "state_of (invocation e w) = state_of (continueUnfinishedReport e ?s)"
    by (simp add: invocation_open [OF assms(1)] split: outcome.splits)
  from continue_char [OF ai hist cache, of e] show ?thesis
  proof (elim exE conjE disjE, goal_cases)
    case (1 dn infos c rs k x)
    show ?case unfolding inv using 1 by simp
  next
    case (2 dn infos c rs k n)
    show ?case unfolding inv using 2 by simp
  next
    case (3 dn infos c rs k n)
    show ?case unfolding inv using 3 by simp
  qed
qed

lemma addAccounts_fields [simp]:
  "historyTab (addAccounts l s) = historyTab s"
  by (induction l arbitrary: s) (simp_all add: addAccount_def)

lemma new_run_history:
  assumes "\<not> hasUnfinishedRun w"
  shows "historyTab (state_of (invocation e w)) = historyTab w
     \<or> (\<exists>r. historyTab (state_of (invocation e w)) = historyTab w @ [r])"
proof -
  let ?s = "init (moduleInit w)"
  have h: "\<not> hasUnfinishedRun ?s" using assms by simp
  have start: "historyTab (state_of (startNewReport e ?s)) = historyTab w
     \<or> (\<exists>r. historyTab (state_of (startNewReport e ?s)) = historyTab w @ [r])"
    by (simp add: startNewReport_def Let_def addRun_def clearAllAccountInfo_def setProtection_def
        split: sum.splits)
  show ?thesis
    using h start
    by (auto simp: invocation_def main_def Let_def split: sum.splits)
qed

lemma onlyLastOpen_closed:
  "h \<noteq> [] \<Longrightarrow> onlyLastOpen (closedHistory e h) = onlyLastOpen h"
  by (simp add: onlyLastOpen_def closedHistory_def)

lemma onlyLastOpen_append:
  assumes "onlyLastOpen h" and "h \<noteq> [] \<longrightarrow> truthy (js_of_cell (endCell (last h)))"
  shows "onlyLastOpen (h @ [r])"
proof (cases h rule: rev_cases)
  case Nil
  then show ?thesis by (simp add: onlyLastOpen_def)
next
  case (snoc bs l)
  with assms show ?thesis by (simp add: onlyLastOpen_def butlast_append)
qed

lemma closedHistory_snoc:
  "closedHistory e (bs @ [l]) = bs @ [l\<lparr>endCell := CNumber (real_of_int (getTimestamp e))\<rparr>]"
  by (simp add: closedHistory_def)

lemma openRuns_le_1:
  assumes "onlyLastOpen h"
  shows "length (openRuns h) \<le> 1"
proof (cases "h = []")
  case True
  then show ?thesis by (simp add: openRuns_def)
next
  case False
  then have h: "h = butlast h @ [last h]" by simp
  have "filter (\<lambda>r. \<not> truthy (js_of_cell (endCell r))) (butlast h) = []"
    using assms by (simp add: onlyLastOpen_def list_all_iff filter_empty_conv)
  then have "openRuns h = filter (\<lambda>r. \<not> truthy (js_of_cell (endCell r))) [last h]"
    unfolding openRuns_def by (subst h) (simp del: append_butlast_last_id)
  then show ?thesis by simp
qed

lemma invocation_onlyLastOpen:
  assumes "onlyLastOpen (historyTab v)"
  shows "onlyLastOpen (historyTab (state_of (invocation e v)))"
proof (cases "hasUnfinishedRun v")
  case True
  then have "historyTab v \<noteq> []" by (rule hasUnfinishedRun_history)
  with continue_history [OF True, of e] assms show ?thesis
    by (auto simp: onlyLastOpen_closed)
next
  case False
  then have last: "historyTab v \<noteq> [] \<longrightarrow> truthy (js_of_cell (endCell (last (historyTab v))))"
    by (simp add: hasUnfinishedRun_def split: if_splits)
  from new_run_history [OF False, of e] show ?thesis
  proof
    assume "historyTab (state_of (invocation e v)) = historyTab v"
    with assms show ?thesis by simp
  next
    assume "\<exists>r. historyTab (state_of (invocation e v)) = historyTab v @ [r]"
    then obtain r where "historyTab (state_of (invocation e v)) = historyTab v @ [r]" ..
    with onlyLastOpen_append [OF assms last, of r] show ?thesis by simp
  qed
qed

text \<open>
  Claim C4. When the last row of the History tab has no end timestamp, an invocation of
  the script is the continuation of the unfinished report, whatever the clock says: the
  History tab keeps its length, its earlier rows, its start timestamps and its URLs (no
  new run), and the Accounts tab keeps its customer ids (no clearing, no enumeration).
  And every invocation keeps the invariant that no run but the last one is open, so that
  at most one run is open.
\<close>

theorem open_run_blocks_new_run:
  assumes "hasUnfinishedRun w"
  shows "invocation e w =
       (case continueUnfinishedReport e (init (moduleInit w)) of
          Throw x s1 \<Rightarrow> Throw x s1
        | Return n s1 \<Rightarrow> Return () s1)
     \<and> length (historyTab (state_of (invocation e w))) = length (historyTab w)
     \<and> butlast (historyTab (state_of (invocation e w))) = butlast (historyTab w)
     \<and> map startCell (historyTab (state_of (invocation e w))) = map startCell (historyTab w)
     \<and> map urlCell (historyTab (state_of (invocation e w))) = map urlCell (historyTab w)
     \<and> map cid (accountsTab (state_of (invocation e w))) = map cid (accountsTab w)
     \<and> (onlyLastOpen (historyTab v) \<longrightarrow>
          onlyLastOpen (historyTab (state_of (invocation e v)))
          \<and> length (openRuns (historyTab (state_of (invocation e v)))) \<le> 1)"
proof -
  have hw: "historyTab w \<noteq> []" using assms by (rule hasUnfinishedRun_history)
  then obtain bs l where hb: "historyTab w = bs @ [l]"
    by (cases "historyTab w" rule: rev_cases) auto
  have closed: "length (closedHistory e (historyTab w)) = length (historyTab w)"
    "butlast (closedHistory e (historyTab w)) = butlast (historyTab w)"
    "map startCell (closedHistory e (historyTab w)) = map startCell (historyTab w)"
    "map urlCell (closedHistory e (historyTab w)) = map urlCell (historyTab w)"
    unfolding hb closedHistory_snoc by simp_all
  have hist: "length (historyTab (state_of (invocation e w))) = length (historyTab w)
     \<and> butlast (historyTab (state_of (invocation e w))) = butlast (historyTab w)
     \<and> map startCell (historyTab (state_of (invocation e w))) = map startCell (historyTab w)
     \<and> map urlCell (historyTab (state_of (invocation e w))) = map urlCell (historyTab w)"
    using continue_history [OF assms, of e] closed by auto
  from continue_accounts [OF assms, of e]
  have cids: "map cid (accountsTab (state_of (invocation e w))) = map cid (accountsTab w)"
    by (auto simp: markedRows_def comp_def)
  have inv: "onlyLastOpen (historyTab v) \<longrightarrow>
          onlyLastOpen (historyTab (state_of (invocation e v)))
          \<and> length (openRuns (historyTab (state_of (invocation e v)))) \<le> 1"
    using invocation_onlyLastOpen [of v e] openRuns_le_1 by blast
  show ?thesis
    using invocation_open [OF assms, of e] hist cids inv by simp
qed


theorem open_run_blocks_new_run_witness:
  "hasUnfinishedRun (openRun [ctr] (settingsRows (CNumber 7) (CNumber 2)) threeAccounts)
   \<and> onlyLastOpen (historyTab (openRun [ctr] (settingsRows (CNumber 7) (CNumber 2)) threeAccounts))
   \<and> length (historyTab (state_of (invocation (env0\<lparr>getTimestamp := 8640001000\<rparr>)
        (openRun [ctr] (settingsRows (CNumber 7) (CNumber 2)) threeAccounts)))) = 1
   \<and> map cid (accountsTab (state_of (invocation (env0\<lparr>getTimestamp := 8640001000\<rparr>)
        (openRun [ctr] (settingsRows (CNumber 7) (CNumber 2)) threeAccounts)))) = [''1'', ''2'', ''3'']
   \<and> length (openRuns (historyTab (state_of (invocation (env0\<lparr>getTimestamp := 8640001000\<rparr>)
        (openRun [ctr] (settingsRows (CNumber 7) (CNumber 2)) threeAccounts))))) \<le> 1"
proof -
  let ?w = "openRun [ctr] (settingsRows (CNumber 7) (CNumber 2)) threeAccounts"
  let ?e = "env0\<lparr>getTimestamp := 8640001000\<rparr>"
  have h: "hasUnfinishedRun ?w"
    by (simp add: openRun_def hasUnfinishedRun_def)
  have o: "onlyLastOpen (historyTab ?w)"
    by (simp add: openRun_def onlyLastOpen_def)
  have l: "length (historyTab ?w) = 1" "map cid (accountsTab ?w) = [''1'', ''2'', ''3'']"
    by (simp_all add: openRun_def threeAccounts_def)
  note inst = open_run_blocks_new_run [OF h, of ?e ?w]
  from inst have len: "length (historyTab (state_of (invocation ?e ?w))) = length (historyTab ?w)"
    by (elim conjE)
  from inst have cids: "map cid (accountsTab (state_of (invocation ?e ?w))) = map cid (accountsTab ?w)"
    by (elim conjE)
  from inst have "onlyLastOpen (historyTab ?w) \<longrightarrow>
          onlyLastOpen (historyTab (state_of (invocation ?e ?w)))
          \<and> length (openRuns (historyTab (state_of (invocation ?e ?w)))) \<le> 1"
    by (elim conjE)
  with o have op: "length (openRuns (historyTab (state_of (invocation ?e ?w)))) \<le> 1"
    by simp
  show ?thesis
    using h o op by (simp add: len cids l)
qed

text \<open>
  Claim C8, as the code has it. In an open run whose report spreadsheet opens: when the
  Accounts tab has rows and all of them are processed, the invocation returns with a
  count of 0, and the state it leaves differs from the state after the initialization
  only in the cached run sheet and in the header row of the report, which is written all
  the same; no account is marked, the History tab, the protection and the mails are
  unchanged and no data row is appended. A batch size of 0 is a setting that is not set:
  with an unprocessed account the invocation throws the error of the mandatory setting
  before anything is changed.
\<close>

theorem empty_batch_writes_header_only:
  assumes "hasUnfinishedRun w"
    and "runSheets w (urlCell (last (historyTab w))) = Some rep"
  shows "(accountsTab w \<noteq> [] \<and> (\<forall>r \<in> set (accountsTab w). \<not> unprocessed r) \<longrightarrow>
          continueUnfinishedReport e (init (moduleInit w)) =
            Return 0 ((init (moduleInit w))
              \<lparr>currentRunSheet := Some (urlCell (last (historyTab w))),
               runSheets := (runSheets w)(urlCell (last (historyTab w)) \<mapsto>
                  rep\<lparr>headerRow := headerLoop (signalRowsLoop (signalsTab w) []) [JString []]
                                      @ [JString ''Score'']\<rparr>)\<rparr>)
          \<and> invocation e w =
            Return () ((init (moduleInit w))
              \<lparr>currentRunSheet := Some (urlCell (last (historyTab w))),
               runSheets := (runSheets w)(urlCell (last (historyTab w)) \<mapsto>
                  rep\<lparr>headerRow := headerLoop (signalRowsLoop (signalsTab w) []) [JString []]
                                      @ [JString ''Score'']\<rparr>)\<rparr>))
     \<and> ((\<exists>r \<in> set (accountsTab w). unprocessed r)
         \<and> (\<forall>r \<in> set (settingsTab w). keyCell r = ''NumAccountsProcess'' \<longrightarrow> \<not> truthy (rowValue r)) \<longrightarrow>
          invocation e w =
            Throw (notSet ''NumAccountsProcess'')
              ((init (moduleInit w))\<lparr>currentRunSheet := Some (urlCell (last (historyTab w)))\<rparr>))"
proof -
  let ?s = "init (moduleInit w)"
  let ?u = "urlCell (last (historyTab w))"
  let ?s1 = "?s\<lparr>currentRunSheet := Some ?u\<rparr>"
  have hw: "historyTab w \<noteq> []" using assms(1) by (rule hasUnfinishedRun_history)
  have g: "getCurrentRunSheet ?s = Return ?u ?s1"
    using hw assms(2) by (simp add: getCurrentRunSheet_def)
  have sd: "signalDefinitions ?s1 = signalRowsLoop (signalsTab w) []"
    by (simp add: init_def moduleInit_def readSignalDefinitions_def Let_def)
  have st: "settings ?s1 = readSettings (settingsTab w)"
    by (simp add: readSettings_def)
  have a: "continueUnfinishedReport e ?s =
            Return 0 (?s\<lparr>currentRunSheet := Some ?u,
               runSheets := (runSheets w)(?u \<mapsto>
                  rep\<lparr>headerRow := headerLoop (signalRowsLoop (signalsTab w) []) [JString []]
                                      @ [JString ''Score'']\<rparr>)\<rparr>)"
    if rows: "accountsTab w \<noteq> []" and none: "\<forall>r \<in> set (accountsTab w). \<not> unprocessed r"
  proof -
    have u: "getUnprocessedAccountIterator e ?s1 = Inr []"
      using rows unprocessedLoop_none [OF none]
      by (simp add: getUnprocessedAccountIterator_def getUnprocessedAccounts_def)
    have w: "writeAccountDataToSpreadsheet e ?s1 =
        Return () (?s\<lparr>currentRunSheet := Some ?u,
               runSheets := (runSheets w)(?u \<mapsto>
                  rep\<lparr>headerRow := headerLoop (signalRowsLoop (signalsTab w) []) [JString []]
                                      @ [JString ''Score'']\<rparr>)\<rparr>)"
      using assms(2) sd
      by (simp add: writeAccountDataToSpreadsheet_def getAccountInfos_def sortByScore_Nil
          writeHeaderRow_def getCurrentRunSheet_def)
    show ?thesis
      by (simp add: continueUnfinishedReport_def g u w completeRun_def)
  qed
  have b: "invocation e w = Throw (notSet ''NumAccountsProcess'') ?s1"
    if some: "\<exists>r \<in> set (accountsTab w). unprocessed r"
      and zero: "\<forall>r \<in> set (settingsTab w). keyCell r = ''NumAccountsProcess'' \<longrightarrow> \<not> truthy (rowValue r)"
  proof -
    have rows: "accountsTab w \<noteq> []" using some by auto
    have "getSetting (readSettings (settingsTab w)) ''NumAccountsProcess'' True
        = Inl (notSet ''NumAccountsProcess'')"
      by (rule getSetting_absent [where m = True, simplified])
        (use zero in \<open>auto simp: readSettings_def readSettingsLoop_eq\<close>)
    then have "unprocessedLoop (settings ?s1) (accountsTab w) [] = Inl (notSet ''NumAccountsProcess'')"
      unfolding st using some by (intro unprocessedLoop_Inl)
    then have "getUnprocessedAccountIterator e ?s1 = Inl (notSet ''NumAccountsProcess'')"
      using rows by (simp add: getUnprocessedAccountIterator_def getUnprocessedAccounts_def)
    then have "continueUnfinishedReport e ?s = Throw (notSet ''NumAccountsProcess'') ?s1"
      by (simp add: continueUnfinishedReport_def g)
    then show ?thesis
      by (simp add: invocation_open [OF assms(1)])
  qed
  show ?thesis
    using a b by (simp add: invocation_open [OF assms(1)])
qed


theorem empty_batch_writes_header_only_witness:
  "hasUnfinishedRun (openRun [ctr] (settingsRows (CNumber 7) (CNumber 2)) twoProcessed)
   \<and> accountsTab (openRun [ctr] (settingsRows (CNumber 7) (CNumber 2)) twoProcessed) \<noteq> []
   \<and> list_all (\<lambda>r. \<not> unprocessed r)
        (accountsTab (openRun [ctr] (settingsRows (CNumber 7) (CNumber 2)) twoProcessed))
   \<and> (\<exists>s'. invocation env0 (openRun [ctr] (settingsRows (CNumber 7) (CNumber 2)) twoProcessed)
              = Return () s'
        \<and> accountsTab s' = twoProcessed
        \<and> historyTab s' = [\<lparr>startCell = CNumber 1000, endCell = CString [], urlCell = ''run1''\<rparr>]
        \<and> protectedTabs s' = protectedSheets
        \<and> outbox s' = []
        \<and> runSheets s' ''run1'' =
            Some \<lparr>headerRow = [JString [], JString ''CTR'', JString ''Score''], dataRows = []\<rparr>)"
proof -
  let ?w = "openRun [ctr] (settingsRows (CNumber 7) (CNumber 2)) twoProcessed"
  have h: "hasUnfinishedRun ?w"
    by (simp add: openRun_def hasUnfinishedRun_def)
  have r: "runSheets ?w (urlCell (last (historyTab ?w))) = Some emptyReport"
    by (simp add: openRun_def)
  have a: "accountsTab ?w \<noteq> []" and n: "\<forall>r \<in> set (accountsTab ?w). \<not> unprocessed r"
    by (simp_all add: openRun_def twoProcessed_def unprocessed_def)
  note inst = conjunct1 [OF empty_batch_writes_header_only [OF h r, of env0], THEN mp,
      OF conjI [OF a n], THEN conjunct2]
  have "\<exists>s'. invocation env0 ?w = Return () s'
        \<and> accountsTab s' = twoProcessed
        \<and> historyTab s' = [\<lparr>startCell = CNumber 1000, endCell = CString [], urlCell = ''run1''\<rparr>]
        \<and> protectedTabs s' = protectedSheets
        \<and> outbox s' = []
        \<and> runSheets s' ''run1'' =
            Some \<lparr>headerRow = [JString [], JString ''CTR'', JString ''Score''], dataRows = []\<rparr>"
    unfolding inst by (simp add: openRun_def ctr_def emptyReport_def)
  then show ?thesis
    using h a n by (simp add: list_all_iff)
qed

text \<open>
  The claim as stated fails: with all accounts processed the report sheet is written
  (its header row), and with a batch size of 0 and unprocessed accounts the invocation
  throws instead of returning a count of 0.
\<close>

theorem empty_batch_counterexample:
  "runSheets (openRun [ctr] (settingsRows (CNumber 7) (CNumber 2)) twoProcessed) ''run1''
     = Some \<lparr>headerRow = [], dataRows = []\<rparr>
   \<and> runSheets (state_of (invocation env0
        (openRun [ctr] (settingsRows (CNumber 7) (CNumber 2)) twoProcessed))) ''run1''
     = Some \<lparr>headerRow = [JString [], JString ''CTR'', JString ''Score''], dataRows = []\<rparr>
   \<and> (\<exists>s'. invocation env0 (openRun [ctr] (settingsRows (CNumber 7) (CNumber 0)) threeAccounts)
              = Throw (notSet ''NumAccountsProcess'') s')"
  by (simp add: run_defs twoProcessed_def notSet_def)

lemma js_div_zero: "js_div x (Num 0) \<in> {NaN, PosInfinity, NegInfinity}"
  by (cases x) (simp_all add: signed_infinity_def)

text \<open>
  Claim C2, as the code has it. A catalog whose included Number signals have a sum of
  weights of zero is loaded like any other: \<open>readSignalDefinitions\<close> returns the
  definitions with the sum 0 and nothing is raised. Accounts are scored with
  \<open>scoreWeights = 0\<close>: the division is evaluated and gives NaN or an infinity as the
  score, and the account is marked as processed.
\<close>

theorem zero_sum_of_weights_is_scored:
  assumes "calculateSumWeights (signalRowsLoop tab []) = 0"
  shows "readSignalDefinitions tab = (signalRowsLoop tab [], 0)
     \<and> (signalsTab s = tab \<longrightarrow>
          signalDefinitions (init s) = signalRowsLoop tab [] \<and> sumWeights (init s) = 0)
     \<and> scoreWeights (processSignals ds 0 info) = 0
     \<and> score (processSignals ds 0 info) = js_div (scoreSum (processSignals ds 0 info)) (Num 0)
     \<and> score (processSignals ds 0 info) \<in> {NaN, PosInfinity, NegInfinity}
     \<and> (sumWeights st = 0 \<and> accountsTab st \<noteq> []
          \<and> calculateRawSignals (settings st) (signalDefinitions st)
                (accountReport e (getCustomerId a)) = Inr raw \<longrightarrow>
          (\<exists>s1. processAccount e a st = Return () s1
             \<and> score (last (accountInfos s1)) \<in> {NaN, PosInfinity, NegInfinity}
             \<and> list_all (\<lambda>r. cid r = getCustomerId a \<longrightarrow>
                   processedCell r = CNumber (real_of_int (getTimestamp e))) (accountsTab s1)))"
proof -
  have a: "readSignalDefinitions tab = (signalRowsLoop tab [], 0)"
    using assms by (simp add: readSignalDefinitions_def Let_def)
  have b: "signalDefinitions (init s) = signalRowsLoop tab [] \<and> sumWeights (init s) = 0"
    if "signalsTab s = tab"
    using that a by (simp add: init_def)
  have sc: "score (processSignals ds 0 info) = js_div (scoreSum (processSignals ds 0 info)) (Num 0)"
    "scoreWeights (processSignals ds 0 info) = 0" for ds info
    by (simp_all add: processSignals_def split: prod.splits)
  have c: "score (processSignals ds 0 info) \<in> {NaN, PosInfinity, NegInfinity}" for ds info
    unfolding sc by (rule js_div_zero)
  have d: "\<exists>s1. processAccount e a st = Return () s1
             \<and> score (last (accountInfos s1)) \<in> {NaN, PosInfinity, NegInfinity}
             \<and> list_all (\<lambda>r. cid r = getCustomerId a \<longrightarrow>
                   processedCell r = CNumber (real_of_int (getTimestamp e))) (accountsTab s1)"
    if "sumWeights st = 0" "accountsTab st \<noteq> []"
      "calculateRawSignals (settings st) (signalDefinitions st)
                (accountReport e (getCustomerId a)) = Inr raw"
    using that c
    by (auto simp: processAccount_def processAccountSignals_def markAccountAsProcessed_def
        markLoop_eq list_all_iff)
  show ?thesis
    using a b sc c d by simp
qed

theorem zero_sum_of_weights_is_scored_witness:
  "calculateSumWeights (signalRowsLoop [ctr\<lparr>weight := 0\<rparr>] []) = 0
   \<and> readSignalDefinitions [ctr\<lparr>weight := 0\<rparr>] = ([ctr\<lparr>weight := 0\<rparr>], 0)
   \<and> score (processSignals [ctr\<lparr>weight := 0\<rparr>] 0
        \<lparr>account = ''1'', rawSignals = [''Ctr'' \<mapsto> JNumber (Num (1 / 20))], signals = Map.empty,
         scoreSum = Num 0, scoreWeights = 0, score = Num 0\<rparr>) = NaN"
proof -
  have z: "calculateSumWeights (signalRowsLoop [ctr\<lparr>weight := 0\<rparr>] []) = 0"
    and l: "signalRowsLoop [ctr\<lparr>weight := 0\<rparr>] [] = [ctr\<lparr>weight := 0\<rparr>]"
    by (simp_all add: calculateSumWeights_def ctr_def)
  have s: "scoreSum (processSignals [ctr\<lparr>weight := 0\<rparr>] 0
        \<lparr>account = ''1'', rawSignals = [''Ctr'' \<mapsto> JNumber (Num (1 / 20))], signals = Map.empty,
         scoreSum = Num 0, scoreWeights = 0, score = Num 0\<rparr>) = Num 0"
    by (simp add: processSignals_def ctr_def normalize_def js_ge_def js_sub_def property_def Let_def)
  note inst = zero_sum_of_weights_is_scored [OF z, where ds = "[ctr\<lparr>weight := 0\<rparr>]"
      and info = "\<lparr>account = ''1'', rawSignals = [''Ctr'' \<mapsto> JNumber (Num (1 / 20))],
         signals = Map.empty, scoreSum = Num 0, scoreWeights = 0, score = Num 0\<rparr>"]
  have "readSignalDefinitions [ctr\<lparr>weight := 0\<rparr>] = (signalRowsLoop [ctr\<lparr>weight := 0\<rparr>] [], 0)"
    by (rule inst [THEN conjunct1])
  moreover have "score (processSignals [ctr\<lparr>weight := 0\<rparr>] 0
        \<lparr>account = ''1'', rawSignals = [''Ctr'' \<mapsto> JNumber (Num (1 / 20))], signals = Map.empty,
         scoreSum = Num 0, scoreWeights = 0, score = Num 0\<rparr>)
      = js_div (scoreSum (processSignals [ctr\<lparr>weight := 0\<rparr>] 0
        \<lparr>account = ''1'', rawSignals = [''Ctr'' \<mapsto> JNumber (Num (1 / 20))], signals = Map.empty,
         scoreSum = Num 0, scoreWeights = 0, score = Num 0\<rparr>)) (Num 0)"
    by (rule inst [THEN conjunct2, THEN conjunct2, THEN conjunct2, THEN conjunct1])
  moreover have "name ctr = ''Ctr''"
    by (simp add: ctr_def)
  ultimately show ?thesis
    using z by (simp add: s signed_infinity_def)
qed

text \<open>
  The claim as stated fails: with a catalog of one signal of weight 0 the invocation
  raises nothing, scores two accounts with \<open>scoreWeights = 0\<close> and the score NaN, and
  marks them as processed.
\<close>

theorem zero_sum_of_weights_counterexample:
  "calculateSumWeights (signalRowsLoop [ctr\<lparr>weight := 0\<rparr>] []) = 0
   \<and> (\<exists>s'. invocation env0 (openRun [ctr\<lparr>weight := 0\<rparr>] (settingsRows (CNumber 7) (CNumber 2))
                threeAccounts) = Return () s'
        \<and> map account (accountInfos s') = [''2'', ''3'']
        \<and> map scoreWeights (accountInfos s') = [0, 0]
        \<and> map score (accountInfos s') = [NaN, NaN]
        \<and> accountsTab s' = [\<lparr>cid = ''1'', processedCell = CNumber 1500\<rparr>,
                            \<lparr>cid = ''2'', processedCell = CNumber 2000\<rparr>,
                            \<lparr>cid = ''3'', processedCell = CNumber 2000\<rparr>])"
  by (simp add: run_defs signed_infinity_def)

end
